theory Spec2Isabelle
  imports Complex_Main "HOL-Library.Multiset"
begin

section \<open>The embeddings table and the SQL fragments the functions use\<close>

text \<open>
  The functions of \<^verbatim>\<open>similarity-search.sql\<close> and \<^verbatim>\<open>attention-ops.sql\<close> are queries
  over the table \<^verbatim>\<open>claude_flow.embeddings\<close>. A table is the list of its rows in the order
  a sequential scan yields them. \<^verbatim>\<open>FLOAT\<close> values are real numbers here, so rounding,
  overflow and NaN are outside the model. A \<^verbatim>\<open>UUID\<close> is a natural number (only its
  equality and its order matter), a \<^verbatim>\<open>TIMESTAMPTZ\<close> an integer, and a \<^verbatim>\<open>JSONB\<close>
  metadata value a flat object of text fields.
\<close>

type_synonym uuid = nat
type_synonym vec = "real list"
type_synonym jsonb = "(string \<times> string) list"
type_synonym timestamptz = int

record embedding_row =
  e_id :: uuid
  e_content :: string
  e_embedding :: "vec option"
  e_metadata :: jsonb
  e_created_at :: timestamptz

text \<open>
  The operator \<^verbatim>\<open><=>\<close> (cosine distance) belongs to the vector extension, not to this
  repository: every function below takes it as the parameter \<open>cd\<close>.
\<close>

type_synonym cdist = "vec \<Rightarrow> vec \<Rightarrow> real"

text \<open>The errors the database raises while it runs one of the functions.\<close>

datatype sql_error = Division_By_Zero | Negative_Limit | Subvector_Out_Of_Range

text \<open>\<^verbatim>\<open>WHERE e.embedding IS NOT NULL\<close>: the rows that have a vector, paired with it.\<close>

definition not_null_embedding :: "embedding_row list \<Rightarrow> (embedding_row \<times> vec) list" where
  "not_null_embedding embeddings =
     List.map_filter (\<lambda>e. map_option (Pair e) (e_embedding e)) embeddings"

text \<open>
  \<^verbatim>\<open>LIMIT n\<close>: PostgreSQL refuses a negative count (\<^verbatim>\<open>LIMIT must not be negative\<close>)
  and otherwise keeps the first \<open>n\<close> rows. With a count of 0 it reads no row of the query
  below it, so an error that only the evaluation of a row can raise does not occur: the
  functions whose rows can fail test the count before they evaluate a row.
\<close>

definition sql_limit :: "int \<Rightarrow> 'a list \<Rightarrow> sql_error + 'a list" where
  "sql_limit n rows = (if n < 0 then Inl Negative_Limit else Inr (take (nat n) rows))"

text \<open>
  \<^verbatim>\<open>ORDER BY k\<close> and \<^verbatim>\<open>ORDER BY k DESC\<close> on a key that is never NULL. SQL leaves the
  order of rows with equal keys open, and the sort of the database is not stable. The
  model has to return one list and keeps rows of equal keys in the order they arrive;
  which of several rows of equal keys comes first is therefore a fact of the model only.
  No function below adds a second sort key.
\<close>

definition order_by :: "('a \<Rightarrow> 'k::linorder) \<Rightarrow> 'a list \<Rightarrow> 'a list" where
  "order_by k rows = sort_key k rows"

definition order_by_desc :: "('a \<Rightarrow> real) \<Rightarrow> 'a list \<Rightarrow> 'a list" where
  "order_by_desc k rows = sort_key (\<lambda>r. - k r) rows"

text \<open>\<^verbatim>\<open>metadata->>'key'\<close>: the text of a field, NULL when the field is absent.\<close>

definition json_text :: "jsonb \<Rightarrow> string \<Rightarrow> string option" where
  "json_text metadata k = map_of metadata k"


text \<open>
  A reference instance of the cosine distance, used to run the functions on concrete
  tables of non-zero vectors of one dimension. On a zero vector the operator of the
  extension yields NaN, which no real number models; the instance is applied to non-zero
  vectors only.
\<close>

definition dot :: "vec \<Rightarrow> vec \<Rightarrow> real" where
  "dot a b = sum_list (map2 (*) a b)"

definition cosine_distance :: cdist where
  "cosine_distance a b = 1 - dot a b / (sqrt (dot a a) * sqrt (dot b b))"


section \<open>Semantic search\<close>







section \<open>Two-stage retrieval\<close>

record rag_row =
  rr_id :: uuid
  rr_content :: string
  rr_coarse_similarity :: real
  rr_exact_similarity :: real
  rr_metadata :: jsonb

text \<open>A row of the CTE \<^verbatim>\<open>coarse_results\<close>.\<close>

record coarse_row =
  cr_id :: uuid
  cr_content :: string
  cr_embedding :: vec
  cr_metadata :: jsonb
  cr_coarse_sim :: real

definition coarse_select :: "cdist \<Rightarrow> vec \<Rightarrow> embedding_row \<times> vec \<Rightarrow> coarse_row" where
  "coarse_select cd query_embedding ev =
     \<lparr> cr_id = e_id (fst ev), cr_content = e_content (fst ev), cr_embedding = snd ev,
       cr_metadata = e_metadata (fst ev), cr_coarse_sim = 1 - cd (snd ev) query_embedding \<rparr>"

definition coarse_results ::
  "cdist \<Rightarrow> vec \<Rightarrow> int \<Rightarrow> embedding_row list \<Rightarrow> sql_error + coarse_row list" where
  "coarse_results cd query_embedding coarse_limit embeddings =
     sql_limit coarse_limit
       (map (coarse_select cd query_embedding)
         (order_by (\<lambda>ev. cd (snd ev) query_embedding) (not_null_embedding embeddings)))"

definition rag_select :: "cdist \<Rightarrow> vec \<Rightarrow> coarse_row \<Rightarrow> rag_row" where
  "rag_select cd query_embedding cr =
     \<lparr> rr_id = cr_id cr, rr_content = cr_content cr, rr_coarse_similarity = cr_coarse_sim cr,
       rr_exact_similarity = 1 - cd (cr_embedding cr) query_embedding,
       rr_metadata = cr_metadata cr \<rparr>"

text \<open>
  \<^verbatim>\<open>rag_retrieve\<close>: the outer \<^verbatim>\<open>LIMIT\<close> is checked first, and with a count of 0 the
  inner query, with its own \<^verbatim>\<open>LIMIT\<close>, is not run.
\<close>

definition rag_retrieve ::
  "cdist \<Rightarrow> vec \<Rightarrow> int \<Rightarrow> int \<Rightarrow> real \<Rightarrow> embedding_row list \<Rightarrow> sql_error + rag_row list" where
  "rag_retrieve cd query_embedding coarse_limit final_limit min_similarity embeddings =
     (if final_limit < 0 then Inl Negative_Limit
      else if final_limit = 0 then Inr []
      else (case coarse_results cd query_embedding coarse_limit embeddings of
              Inl err \<Rightarrow> Inl err
            | Inr crs \<Rightarrow>
                sql_limit final_limit
                  (order_by_desc rr_exact_similarity
                    (map (rag_select cd query_embedding)
                      (filter (\<lambda>cr. cr_coarse_sim cr \<ge> min_similarity) crs)))))"

text \<open>
  Stage 2 as the specification words it: the candidates whose exact similarity reaches
  \<open>min_similarity\<close>, in the order of the candidate set.
\<close>

definition stage2_survivors :: "cdist \<Rightarrow> vec \<Rightarrow> real \<Rightarrow> coarse_row list \<Rightarrow> rag_row list" where
  "stage2_survivors cd query_embedding min_similarity crs =
     filter (\<lambda>r. rr_exact_similarity r \<ge> min_similarity)
       (map (rag_select cd query_embedding) crs)"


section \<open>Aggregates and NULL\<close>

text \<open>\<^verbatim>\<open>MAX\<close> and \<^verbatim>\<open>SUM\<close> over a set of rows that may be empty: NULL when there is no row.\<close>

definition sql_max :: "real list \<Rightarrow> real option" where
  "sql_max xs = (case xs of [] \<Rightarrow> None | x # ys \<Rightarrow> Some (fold max ys x))"

definition sql_sum :: "real list \<Rightarrow> real option" where
  "sql_sum xs = (if xs = [] then None else Some (sum_list xs))"

text \<open>\<^verbatim>\<open>COALESCE(x, 0)\<close> and \<^verbatim>\<open>NULLIF(x, 0)\<close>.\<close>

definition coalesce0 :: "real option \<Rightarrow> real" where
  "coalesce0 x = (case x of None \<Rightarrow> 0 | Some v \<Rightarrow> v)"

definition nullif0 :: "real option \<Rightarrow> real option" where
  "nullif0 x = (if x = Some 0 then None else x)"

text \<open>\<^verbatim>\<open>x / NULLIF(s, 0)\<close>: NULL when the divisor is NULL, so the division never fails.\<close>

definition div_nullif0 :: "real \<Rightarrow> real option \<Rightarrow> real option" where
  "div_nullif0 x s = (case nullif0 s of None \<Rightarrow> None | Some d \<Rightarrow> Some (x / d))"

text \<open>
  \<^verbatim>\<open>ORDER BY k DESC\<close> on a key that may be NULL: PostgreSQL puts the NULLs first in a
  descending order.
\<close>

definition order_by_desc_nulls_first :: "('a \<Rightarrow> real option) \<Rightarrow> 'a list \<Rightarrow> 'a list" where
  "order_by_desc_nulls_first k rows =
     filter (\<lambda>r. k r = None) rows @
     order_by_desc (\<lambda>r. coalesce0 (k r)) (filter (\<lambda>r. k r \<noteq> None) rows)"


section \<open>Diversity-aware search (MMR)\<close>

record mmr_row =
  mr_id :: uuid
  mr_content :: string
  mr_relevance :: real
  mr_diversity_penalty :: real
  mr_mmr_score :: real
  mr_metadata :: jsonb

text \<open>
  \<^verbatim>\<open>COALESCE((SELECT MAX(1 - (emb <=> se)) FROM unnest(selected) AS se), 0)\<close>: the
  largest similarity of a vector to the selected ones, 0 when nothing is selected.
\<close>

definition max_sim_to_selected :: "cdist \<Rightarrow> vec \<Rightarrow> vec list \<Rightarrow> real" where
  "max_sim_to_selected cd emb selected =
     coalesce0 (sql_max (map (\<lambda>se. 1 - cd emb se) selected))"

text \<open>The \<^verbatim>\<open>ORDER BY\<close> expression of the selection query.\<close>

definition mmr_order_key :: "cdist \<Rightarrow> vec \<Rightarrow> real \<Rightarrow> vec list \<Rightarrow> embedding_row \<times> vec \<Rightarrow> real" where
  "mmr_order_key cd query_embedding lambda selected_embeddings ev =
     lambda * (1 - cd (snd ev) query_embedding)
     - (1 - lambda) * max_sim_to_selected cd (snd ev) selected_embeddings"

text \<open>
  The body of \<^verbatim>\<open>FOR i IN 1..limit_count LOOP\<close>, with the number of iterations left and
  the two accumulators. The selection query is \<^verbatim>\<open>ORDER BY ... DESC LIMIT 1\<close> over the
  rows with a vector whose id is not selected yet; no row ends the loop
  (\<^verbatim>\<open>EXIT WHEN rec IS NULL\<close>). The penalty reported is computed after the append, over
  all selected vectors but the last.
\<close>

fun mmr_loop ::
  "cdist \<Rightarrow> vec \<Rightarrow> real \<Rightarrow> embedding_row list \<Rightarrow> nat \<Rightarrow> uuid list \<Rightarrow> vec list \<Rightarrow> mmr_row list" where
  "mmr_loop cd query_embedding lambda embeddings 0 selected_ids selected_embeddings = []"
| "mmr_loop cd query_embedding lambda embeddings (Suc n) selected_ids selected_embeddings =
     (case order_by_desc (mmr_order_key cd query_embedding lambda selected_embeddings)
             (filter (\<lambda>ev. e_id (fst ev) \<notin> set selected_ids) (not_null_embedding embeddings)) of
        [] \<Rightarrow> []
      | rec # _ \<Rightarrow>
          (let selected_ids' = selected_ids @ [e_id (fst rec)];
               selected_embeddings' = selected_embeddings @ [snd rec];
               max_sim = max_sim_to_selected cd (snd rec)
                           (take (length selected_embeddings' - 1) selected_embeddings');
               rel = 1 - cd (snd rec) query_embedding
           in \<lparr> mr_id = e_id (fst rec), mr_content = e_content (fst rec), mr_relevance = rel,
                mr_diversity_penalty = max_sim,
                mr_mmr_score = lambda * rel - (1 - lambda) * max_sim,
                mr_metadata = e_metadata (fst rec) \<rparr>
              # mmr_loop cd query_embedding lambda embeddings n selected_ids' selected_embeddings'))"

text \<open>
  \<^verbatim>\<open>mmr_search\<close>: the loop runs \<open>limit_count\<close> times, not at all for a limit below 1.
  The function has no statement that can fail.
\<close>

definition mmr_search ::
  "cdist \<Rightarrow> vec \<Rightarrow> int \<Rightarrow> real \<Rightarrow> embedding_row list \<Rightarrow> sql_error + mmr_row list" where
  "mmr_search cd query_embedding limit_count lambda embeddings =
     Inr (mmr_loop cd query_embedding lambda embeddings (nat limit_count) [] [])"

text \<open>Ranking purely by relevance: the rows with a vector by descending similarity.\<close>

definition relevance_ranking :: "cdist \<Rightarrow> vec \<Rightarrow> embedding_row list \<Rightarrow> (embedding_row \<times> vec) list" where
  "relevance_ranking cd query_embedding embeddings =
     order_by_desc (\<lambda>ev. 1 - cd (snd ev) query_embedding) (not_null_embedding embeddings)"


section \<open>Attention scores\<close>

record attention_row =
  ar_id :: uuid
  ar_content :: string
  ar_raw_score :: real
  ar_attention_weight :: "real option"
  ar_metadata :: jsonb

text \<open>The argument of \<^verbatim>\<open>EXP\<close> in \<^verbatim>\<open>attention_scores\<close>, in the sum and in the weight.\<close>

definition attention_exponent :: "cdist \<Rightarrow> vec \<Rightarrow> real \<Rightarrow> vec \<Rightarrow> real" where
  "attention_exponent cd query_embedding temperature emb =
     (1 - cd emb query_embedding) / temperature"

definition softmax_sum :: "cdist \<Rightarrow> vec \<Rightarrow> real \<Rightarrow> (embedding_row \<times> vec) list \<Rightarrow> real option" where
  "softmax_sum cd query_embedding temperature rows =
     sql_sum (map (\<lambda>ev. exp (attention_exponent cd query_embedding temperature (snd ev))) rows)"

definition attention_select ::
  "cdist \<Rightarrow> vec \<Rightarrow> real \<Rightarrow> real option \<Rightarrow> embedding_row \<times> vec \<Rightarrow> attention_row" where
  "attention_select cd query_embedding temperature ssum ev =
     \<lparr> ar_id = e_id (fst ev), ar_content = e_content (fst ev),
       ar_raw_score = 1 - cd (snd ev) query_embedding,
       ar_attention_weight =
         div_nullif0 (exp (attention_exponent cd query_embedding temperature (snd ev))) ssum,
       ar_metadata = e_metadata (fst ev) \<rparr>"

text \<open>
  \<^verbatim>\<open>attention_scores\<close>: the first statement sums the exponentials over the rows with a
  vector, the second returns the rows with their weights. A division by \<open>temperature = 0\<close>
  is an error of the database as soon as one row is evaluated. \<^verbatim>\<open>EXP\<close> is the real
  exponential here: the database raises \<^verbatim>\<open>value out of range\<close> when the exponential of a
  double overflows or underflows, which the real numbers do not show, here and in the
  other softmax functions.
\<close>

definition attention_scores ::
  "cdist \<Rightarrow> vec \<Rightarrow> int \<Rightarrow> real \<Rightarrow> embedding_row list \<Rightarrow> sql_error + attention_row list" where
  "attention_scores cd query_embedding limit_count temperature embeddings =
     (let rows = not_null_embedding embeddings in
      if rows \<noteq> [] \<and> temperature = 0 then Inl Division_By_Zero
      else sql_limit limit_count
             (order_by_desc_nulls_first ar_attention_weight
               (map (attention_select cd query_embedding temperature
                      (softmax_sum cd query_embedding temperature rows)) rows)))"


text \<open>
  The softmax as the specification describes it: the largest exponent of the corpus is
  subtracted from every exponent before the exponential is taken.
\<close>

definition stable_exponent :: "cdist \<Rightarrow> vec \<Rightarrow> real \<Rightarrow> (embedding_row \<times> vec) list \<Rightarrow> vec \<Rightarrow> real" where
  "stable_exponent cd query_embedding temperature rows emb =
     attention_exponent cd query_embedding temperature emb
     - coalesce0 (sql_max (map (\<lambda>ev. attention_exponent cd query_embedding temperature (snd ev)) rows))"

definition stable_softmax_weight ::
  "cdist \<Rightarrow> vec \<Rightarrow> real \<Rightarrow> (embedding_row \<times> vec) list \<Rightarrow> vec \<Rightarrow> real" where
  "stable_softmax_weight cd query_embedding temperature rows emb =
     exp (stable_exponent cd query_embedding temperature rows emb)
     / sum_list (map (\<lambda>ev. exp (stable_exponent cd query_embedding temperature rows (snd ev))) rows)"


section \<open>Grouping, windows and joins\<close>

text \<open>
  \<^verbatim>\<open>GROUP BY\<close>: the rows split by their key, one group per key. A group is its first
  row and its other rows, so it is never empty. The database fixes no order of the groups;
  the model lists them in the order of first appearance, which is a fact of the model only
  and matters only between groups of equal sort keys.
\<close>

fun group_by :: "('r \<Rightarrow> 'k) \<Rightarrow> 'r list \<Rightarrow> ('k \<times> 'r \<times> 'r list) list" where
  "group_by key [] = []"
| "group_by key (r # rs) =
     (key r, r, filter (\<lambda>x. key x = key r) rs) # group_by key (filter (\<lambda>x. key x \<noteq> key r) rs)"

text \<open>The rows of a group, and the aggregates over a column \<open>f\<close> of a group.\<close>

definition group_rows :: "'r \<times> 'r list \<Rightarrow> 'r list" where
  "group_rows g = fst g # snd g"

definition agg_max :: "('r \<Rightarrow> real) \<Rightarrow> 'r \<times> 'r list \<Rightarrow> real" where
  "agg_max f g = fold max (map f (snd g)) (f (fst g))"

definition agg_min :: "('r \<Rightarrow> real) \<Rightarrow> 'r \<times> 'r list \<Rightarrow> real" where
  "agg_min f g = fold min (map f (snd g)) (f (fst g))"

definition agg_sum :: "('r \<Rightarrow> real) \<Rightarrow> 'r \<times> 'r list \<Rightarrow> real" where
  "agg_sum f g = sum_list (map f (group_rows g))"

definition agg_avg :: "('r \<Rightarrow> real) \<Rightarrow> 'r \<times> 'r list \<Rightarrow> real" where
  "agg_avg f g = sum_list (map f (group_rows g)) / real (length (group_rows g))"

definition agg_count_distinct :: "('r \<Rightarrow> 'c) \<Rightarrow> 'r \<times> 'r list \<Rightarrow> int" where
  "agg_count_distinct f g = int (length (remdups (map f (group_rows g))))"

text \<open>\<^verbatim>\<open>SUM(f) OVER (PARTITION BY key)\<close>, read at the row \<open>r\<close>.\<close>

definition window_sum :: "('r \<Rightarrow> 'k) \<Rightarrow> ('r \<Rightarrow> real) \<Rightarrow> 'r list \<Rightarrow> 'r \<Rightarrow> real" where
  "window_sum key f rows r = sum_list (map f (filter (\<lambda>x. key x = key r) rows))"

text \<open>\<^verbatim>\<open>a JOIN b ON ka = kb\<close>: the pairs with equal keys, in the order of \<open>a\<close>.\<close>

definition join_on :: "('a \<Rightarrow> 'k) \<Rightarrow> ('b \<Rightarrow> 'k) \<Rightarrow> 'a list \<Rightarrow> 'b list \<Rightarrow> ('a \<times> 'b) list" where
  "join_on ka kb as bs = concat (map (\<lambda>a. map (Pair a) (filter (\<lambda>b. ka a = kb b) bs)) as)"

text \<open>\<^verbatim>\<open>generate_series(1, n)\<close>.\<close>

definition generate_series_from_1 :: "int \<Rightarrow> int list" where
  "generate_series_from_1 n = [1..n]"

text \<open>Integer division of SQL: the quotient is cut towards zero.\<close>

definition int_div_trunc :: "int \<Rightarrow> int \<Rightarrow> int" where
  "int_div_trunc a b = sgn a * sgn b * (\<bar>a\<bar> div \<bar>b\<bar>)"

text \<open>\<^verbatim>\<open>metadata @> flt\<close> on flat objects: every field of \<open>flt\<close> is in \<open>metadata\<close>.\<close>

definition jsonb_contains :: "jsonb \<Rightarrow> jsonb \<Rightarrow> bool" where
  "jsonb_contains metadata flt = list_all (\<lambda>kv. json_text metadata (fst kv) = Some (snd kv)) flt"

text \<open>The first error of a list of results, or all their values.\<close>

fun all_ok :: "('e + 'a) list \<Rightarrow> 'e + 'a list" where
  "all_ok [] = Inr []"
| "all_ok (x # xs) =
     (case x of Inl err \<Rightarrow> Inl err
      | Inr v \<Rightarrow> (case all_ok xs of Inl err \<Rightarrow> Inl err | Inr vs \<Rightarrow> Inr (v # vs)))"


section \<open>Self-attention and cross-attention\<close>

record self_attention_row =
  sa_source_id :: uuid
  sa_attended_id :: uuid
  sa_head_idx :: int
  sa_attention_score :: real
  sa_source_content :: string
  sa_attended_content :: string

text \<open>A row of the CTE \<^verbatim>\<open>raw_scores\<close> of \<^verbatim>\<open>self_attention\<close>.\<close>

record raw_score_row =
  rs_s_id :: uuid
  rs_s_content :: string
  rs_t_id :: uuid
  rs_t_content :: string
  rs_h_idx :: int
  rs_score :: real

definition source_embeddings :: "uuid list \<Rightarrow> embedding_row list \<Rightarrow> (embedding_row \<times> vec) list" where
  "source_embeddings source_ids embeddings =
     filter (\<lambda>ev. e_id (fst ev) \<in> set source_ids) (not_null_embedding embeddings)"

text \<open>
  \<^verbatim>\<open>all_pairs\<close> and \<^verbatim>\<open>raw_scores\<close>: every source with every row that has a vector and
  every head index from 1 to \<open>head_count\<close>.
\<close>

definition raw_scores :: "cdist \<Rightarrow> uuid list \<Rightarrow> int \<Rightarrow> embedding_row list \<Rightarrow> raw_score_row list" where
  "raw_scores cd source_ids head_count embeddings =
     concat (map (\<lambda>s. concat (map (\<lambda>t. map (\<lambda>h.
         \<lparr> rs_s_id = e_id (fst s), rs_s_content = e_content (fst s),
           rs_t_id = e_id (fst t), rs_t_content = e_content (fst t),
           rs_h_idx = h, rs_score = 1 - cd (snd s) (snd t) \<rparr>)
         (generate_series_from_1 head_count))
       (not_null_embedding embeddings)))
     (source_embeddings source_ids embeddings))"

text \<open>
  \<^verbatim>\<open>softmax_scores\<close>: every raw row with its weight, the exponential over the sum of the
  exponentials of its partition \<^verbatim>\<open>(s_id, h_idx)\<close>.
\<close>

definition softmax_scores ::
  "cdist \<Rightarrow> uuid list \<Rightarrow> int \<Rightarrow> real \<Rightarrow> embedding_row list \<Rightarrow> (raw_score_row \<times> real) list" where
  "softmax_scores cd source_ids head_count temperature embeddings =
     (let rs = raw_scores cd source_ids head_count embeddings in
      map (\<lambda>r. (r, exp (rs_score r / temperature)
                   / window_sum (\<lambda>x. (rs_s_id x, rs_h_idx x))
                       (\<lambda>x. exp (rs_score x / temperature)) rs r)) rs)"

definition self_attention_select :: "raw_score_row \<times> real \<Rightarrow> self_attention_row" where
  "self_attention_select ss =
     \<lparr> sa_source_id = rs_s_id (fst ss), sa_attended_id = rs_t_id (fst ss),
       sa_head_idx = rs_h_idx (fst ss), sa_attention_score = snd ss,
       sa_source_content = rs_s_content (fst ss), sa_attended_content = rs_t_content (fst ss) \<rparr>"

text \<open>
  \<^verbatim>\<open>self_attention\<close>: the weights above 0.01, ordered by source, head and descending
  weight. With \<open>temperature = 0\<close> the first row evaluated is a division by zero.
\<close>

definition self_attention ::
  "cdist \<Rightarrow> uuid list \<Rightarrow> int \<Rightarrow> real \<Rightarrow> embedding_row list \<Rightarrow> sql_error + self_attention_row list" where
  "self_attention cd source_ids head_count temperature embeddings =
     (if raw_scores cd source_ids head_count embeddings \<noteq> [] \<and> temperature = 0
      then Inl Division_By_Zero
      else Inr (order_by sa_source_id (order_by sa_head_idx (order_by_desc sa_attention_score
             (map self_attention_select
               (filter (\<lambda>ss. snd ss > 0.01)
                 (softmax_scores cd source_ids head_count temperature embeddings)))))))"

record cross_attention_row =
  ca_query_id :: uuid
  ca_key_id :: uuid
  ca_attention_weight :: real
  ca_query_content :: string
  ca_key_content :: string
  ca_key_metadata :: jsonb

text \<open>A row of the CTE \<^verbatim>\<open>raw_attention\<close> of \<^verbatim>\<open>cross_attention\<close>.\<close>

record raw_attention_row =
  ra_q_id :: uuid
  ra_q_content :: string
  ra_k_id :: uuid
  ra_k_content :: string
  ra_k_meta :: jsonb
  ra_score :: real

definition queries :: "uuid list \<Rightarrow> embedding_row list \<Rightarrow> (embedding_row \<times> vec) list" where
  "queries query_ids embeddings =
     filter (\<lambda>ev. e_id (fst ev) \<in> set query_ids) (not_null_embedding embeddings)"

definition keys :: "uuid list \<Rightarrow> jsonb option \<Rightarrow> embedding_row list \<Rightarrow> (embedding_row \<times> vec) list" where
  "keys query_ids key_value_filter embeddings =
     filter (\<lambda>ev. (case key_value_filter of None \<Rightarrow> True
                     | Some flt \<Rightarrow> jsonb_contains (e_metadata (fst ev)) flt)
                  \<and> e_id (fst ev) \<notin> set query_ids)
       (not_null_embedding embeddings)"

definition raw_attention ::
  "cdist \<Rightarrow> uuid list \<Rightarrow> jsonb option \<Rightarrow> embedding_row list \<Rightarrow> raw_attention_row list" where
  "raw_attention cd query_ids key_value_filter embeddings =
     concat (map (\<lambda>q. map (\<lambda>k.
         \<lparr> ra_q_id = e_id (fst q), ra_q_content = e_content (fst q),
           ra_k_id = e_id (fst k), ra_k_content = e_content (fst k),
           ra_k_meta = e_metadata (fst k), ra_score = 1 - cd (snd q) (snd k) \<rparr>)
         (keys query_ids key_value_filter embeddings))
       (queries query_ids embeddings))"

definition softmax_attention ::
  "cdist \<Rightarrow> uuid list \<Rightarrow> jsonb option \<Rightarrow> real \<Rightarrow> embedding_row list
     \<Rightarrow> (raw_attention_row \<times> real) list" where
  "softmax_attention cd query_ids key_value_filter temperature embeddings =
     (let ra = raw_attention cd query_ids key_value_filter embeddings in
      map (\<lambda>r. (r, exp (ra_score r / temperature)
                   / window_sum ra_q_id (\<lambda>x. exp (ra_score x / temperature)) ra r)) ra)"

definition cross_attention_select :: "raw_attention_row \<times> real \<Rightarrow> cross_attention_row" where
  "cross_attention_select sa =
     \<lparr> ca_query_id = ra_q_id (fst sa), ca_key_id = ra_k_id (fst sa),
       ca_attention_weight = snd sa, ca_query_content = ra_q_content (fst sa),
       ca_key_content = ra_k_content (fst sa), ca_key_metadata = ra_k_meta (fst sa) \<rparr>"

definition cross_attention ::
  "cdist \<Rightarrow> uuid list \<Rightarrow> jsonb option \<Rightarrow> real \<Rightarrow> embedding_row list
     \<Rightarrow> sql_error + cross_attention_row list" where
  "cross_attention cd query_ids key_value_filter temperature embeddings =
     (if raw_attention cd query_ids key_value_filter embeddings \<noteq> [] \<and> temperature = 0
      then Inl Division_By_Zero
      else Inr (order_by ca_query_id (order_by_desc ca_attention_weight
             (map cross_attention_select
               (filter (\<lambda>sa. snd sa > 0.01)
                 (softmax_attention cd query_ids key_value_filter temperature embeddings))))))"


section \<open>Multi-head attention aggregation\<close>

text \<open>
  \<^verbatim>\<open>subvector(v, start, count)\<close> belongs to the vector extension: the functions take it as
  the parameter \<open>sv\<close>, which may fail. The reference instance below follows the
  \<^verbatim>\<open>subvector\<close> of pgvector: the slice of \<open>count\<close> components from position \<open>start\<close>
  (counted from 1), clipped to the vector; it is an error when \<open>count\<close> is below 1, when
  \<open>start\<close> lies behind the vector, or when the clipped slice is empty. The theorems read
  it on slices that lie inside the vector only.
\<close>

type_synonym subvector_fn = "vec \<Rightarrow> int \<Rightarrow> int \<Rightarrow> sql_error + vec"

definition slice_subvector :: subvector_fn where
  "slice_subvector v start cnt =
     (let dim = int (length v);
          end = (if start > dim - cnt then dim + 1 else start + cnt);
          first = (if start < 1 then 1 else start)
      in if cnt < 1 \<or> start > dim \<or> end - first < 1 then Inl Subvector_Out_Of_Range
         else Inr (take (nat (end - first)) (drop (nat (first - 1)) v)))"

text \<open>The components head \<open>head_idx\<close> reads of a vector: \<open>head_dim\<close> of them, contiguous.\<close>

definition head_slice :: "int \<Rightarrow> vec \<Rightarrow> int \<Rightarrow> vec" where
  "head_slice head_dim v head_idx =
     take (nat head_dim) (drop (nat ((head_idx - 1) * head_dim)) v)"

record multihead_row =
  mh_id :: uuid
  mh_content :: string
  mh_aggregated_attention :: real
  mh_head_attentions :: "real list"
  mh_metadata :: jsonb

text \<open>A row of the CTE \<^verbatim>\<open>per_head_attention\<close>.\<close>

record per_head_row =
  pha_id :: uuid
  pha_content :: string
  pha_metadata :: jsonb
  pha_head_idx :: int
  pha_head_score :: real

definition head_score ::
  "subvector_fn \<Rightarrow> cdist \<Rightarrow> vec \<Rightarrow> int \<Rightarrow> embedding_row \<times> vec \<Rightarrow> int \<Rightarrow> sql_error + per_head_row" where
  "head_score sv cd query_embedding head_dim ev head_idx =
     (case sv (snd ev) ((head_idx - 1) * head_dim + 1) head_dim of
        Inl err \<Rightarrow> Inl err
      | Inr a \<Rightarrow>
          (case sv query_embedding ((head_idx - 1) * head_dim + 1) head_dim of
             Inl err \<Rightarrow> Inl err
           | Inr b \<Rightarrow>
               Inr \<lparr> pha_id = e_id (fst ev), pha_content = e_content (fst ev),
                     pha_metadata = e_metadata (fst ev), pha_head_idx = head_idx,
                     pha_head_score = 1 - cd a b \<rparr>))"

text \<open>
  The row of \<^verbatim>\<open>per_head_attention\<close> for a table row and a head whose two slices lie inside
  the vectors, and the scores of the heads 1 to \<open>num_heads\<close> of a table row.
\<close>

definition head_row :: "cdist \<Rightarrow> vec \<Rightarrow> int \<Rightarrow> embedding_row \<times> vec \<Rightarrow> int \<Rightarrow> per_head_row" where
  "head_row cd query_embedding head_dim ev head_idx =
     \<lparr> pha_id = e_id (fst ev), pha_content = e_content (fst ev),
       pha_metadata = e_metadata (fst ev), pha_head_idx = head_idx,
       pha_head_score = 1 - cd (head_slice head_dim (snd ev) head_idx)
                               (head_slice head_dim query_embedding head_idx) \<rparr>"

definition head_scores :: "cdist \<Rightarrow> vec \<Rightarrow> int \<Rightarrow> int \<Rightarrow> embedding_row \<times> vec \<Rightarrow> real list" where
  "head_scores cd query_embedding num_heads head_dim ev =
     map (\<lambda>h. 1 - cd (head_slice head_dim (snd ev) h) (head_slice head_dim query_embedding h))
       (generate_series_from_1 num_heads)"

definition per_head_attention ::
  "subvector_fn \<Rightarrow> cdist \<Rightarrow> vec \<Rightarrow> int \<Rightarrow> int \<Rightarrow> embedding_row list \<Rightarrow> sql_error + per_head_row list" where
  "per_head_attention sv cd query_embedding num_heads head_dim embeddings =
     all_ok (concat (map (\<lambda>ev. map (head_score sv cd query_embedding head_dim ev)
                                  (generate_series_from_1 num_heads))
                     (not_null_embedding embeddings)))"

text \<open>
  The CTE \<^verbatim>\<open>aggregated\<close>: per \<^verbatim>\<open>(id, content, metadata)\<close> the mean of the head scores
  and the head scores in the order of the head index.
\<close>

definition multihead_aggregated :: "per_head_row list \<Rightarrow> multihead_row list" where
  "multihead_aggregated pha =
     map (\<lambda>kg. \<lparr> mh_id = fst (fst kg), mh_content = fst (snd (fst kg)),
                 mh_aggregated_attention = agg_avg pha_head_score (snd kg),
                 mh_head_attentions =
                   map pha_head_score (order_by pha_head_idx (group_rows (snd kg))),
                 mh_metadata = snd (snd (fst kg)) \<rparr>)
       (group_by (\<lambda>r. (pha_id r, pha_content r, pha_metadata r)) pha)"

text \<open>
  \<^verbatim>\<open>multihead_attention_aggregate\<close>. The function compares nothing with the dimension
  of the vectors; the limit is checked by the database before the first row is read, with
  a limit of 0 no row is read, and otherwise an error of \<^verbatim>\<open>subvector\<close> on any row ends
  the query.
\<close>

definition multihead_attention_aggregate ::
  "subvector_fn \<Rightarrow> cdist \<Rightarrow> vec \<Rightarrow> int \<Rightarrow> int \<Rightarrow> int \<Rightarrow> embedding_row list
     \<Rightarrow> sql_error + multihead_row list" where
  "multihead_attention_aggregate sv cd query_embedding num_heads head_dim limit_count embeddings =
     (if limit_count < 0 then Inl Negative_Limit
      else if limit_count = 0 then Inr []
      else (case per_head_attention sv cd query_embedding num_heads head_dim embeddings of
              Inl err \<Rightarrow> Inl err
            | Inr pha \<Rightarrow>
                sql_limit limit_count
                  (order_by_desc mh_aggregated_attention (multihead_aggregated pha))))"


section \<open>Block-wise (flash) attention\<close>

record flash_row =
  fr_id :: uuid
  fr_content :: string
  fr_attention_score :: "real option"
  fr_block_id :: int
  fr_metadata :: jsonb

text \<open>A row of the CTE \<^verbatim>\<open>blocked\<close>: a table row with its vector, row number and block.\<close>

record blocked_row =
  bl_row :: "embedding_row \<times> vec"
  bl_row_num :: int
  bl_blk_id :: int

text \<open>\<^verbatim>\<open>ROW_NUMBER() OVER (ORDER BY e.created_at)\<close> over the rows with a vector.\<close>

definition numbered_embeddings :: "embedding_row list \<Rightarrow> ((embedding_row \<times> vec) \<times> int) list" where
  "numbered_embeddings embeddings =
     (let rows = order_by (\<lambda>ev. e_created_at (fst ev)) (not_null_embedding embeddings)
      in zip rows [1..int (length rows)])"

definition blocked :: "int \<Rightarrow> embedding_row list \<Rightarrow> blocked_row list" where
  "blocked block_size embeddings =
     map (\<lambda>ne. \<lparr> bl_row = fst ne, bl_row_num = snd ne,
                 bl_blk_id = int_div_trunc (snd ne - 1) block_size + 1 \<rparr>)
       (numbered_embeddings embeddings)"

definition flash_raw_score :: "cdist \<Rightarrow> vec \<Rightarrow> blocked_row \<Rightarrow> real" where
  "flash_raw_score cd query_embedding b = 1 - cd (snd (bl_row b)) query_embedding"

text \<open>\<^verbatim>\<open>block_max\<close>: the largest raw score of every block.\<close>

definition block_max :: "cdist \<Rightarrow> vec \<Rightarrow> blocked_row list \<Rightarrow> (int \<times> real) list" where
  "block_max cd query_embedding bs =
     map (\<lambda>kg. (fst kg, agg_max (flash_raw_score cd query_embedding) (snd kg)))
       (group_by bl_blk_id bs)"

text \<open>\<^verbatim>\<open>block_attention\<close>: every row with the exponential of its score minus its block's maximum.\<close>

definition block_attention :: "cdist \<Rightarrow> vec \<Rightarrow> blocked_row list \<Rightarrow> (blocked_row \<times> real) list" where
  "block_attention cd query_embedding bs =
     map (\<lambda>bbm. (fst bbm, exp (flash_raw_score cd query_embedding (fst bbm) - snd (snd bbm))))
       (join_on bl_blk_id fst bs (block_max cd query_embedding bs))"

definition block_sums :: "(blocked_row \<times> real) list \<Rightarrow> (int \<times> real) list" where
  "block_sums ba =
     map (\<lambda>kg. (fst kg, agg_sum snd (snd kg))) (group_by (\<lambda>x. bl_blk_id (fst x)) ba)"

definition final_attention :: "(blocked_row \<times> real) list \<Rightarrow> flash_row list" where
  "final_attention ba =
     map (\<lambda>babs. \<lparr> fr_id = e_id (fst (bl_row (fst (fst babs)))),
                   fr_content = e_content (fst (bl_row (fst (fst babs)))),
                   fr_attention_score = div_nullif0 (snd (fst babs)) (Some (snd (snd babs))),
                   fr_block_id = bl_blk_id (fst (fst babs)),
                   fr_metadata = e_metadata (fst (bl_row (fst (fst babs)))) \<rparr>)
       (join_on (\<lambda>x. bl_blk_id (fst x)) fst ba (block_sums ba))"

text \<open>
  \<^verbatim>\<open>flash_attention_search\<close>. The block of a row is an integer division by
  \<open>block_size\<close>, an error of the database when \<open>block_size = 0\<close> and a row is read; with
  a limit of 0 no row is read.
\<close>

definition flash_attention_search ::
  "cdist \<Rightarrow> vec \<Rightarrow> int \<Rightarrow> int \<Rightarrow> embedding_row list \<Rightarrow> sql_error + flash_row list" where
  "flash_attention_search cd query_embedding block_size limit_count embeddings =
     (if limit_count < 0 then Inl Negative_Limit
      else if limit_count = 0 then Inr []
      else if numbered_embeddings embeddings \<noteq> [] \<and> block_size = 0 then Inl Division_By_Zero
      else sql_limit limit_count
             (order_by_desc_nulls_first fr_attention_score
               (final_attention
                 (block_attention cd query_embedding (blocked block_size embeddings)))))"


text \<open>The ranking of a result of the two attention searches: the documents with their weights, in order.\<close>

definition flash_ranking :: "flash_row list \<Rightarrow> (uuid \<times> string \<times> real option \<times> jsonb) list" where
  "flash_ranking rows = map (\<lambda>r. (fr_id r, fr_content r, fr_attention_score r, fr_metadata r)) rows"

definition attention_ranking :: "attention_row list \<Rightarrow> (uuid \<times> string \<times> real option \<times> jsonb) list" where
  "attention_ranking rows =
     map (\<lambda>r. (ar_id r, ar_content r, ar_attention_weight r, ar_metadata r)) rows"


section \<open>Cluster search\<close>

record cluster_row =
  cl_id :: uuid
  cl_content :: string
  cl_best_similarity :: real
  cl_avg_similarity :: real
  cl_matching_queries :: int
  cl_metadata :: jsonb

text \<open>A row of the CTE \<^verbatim>\<open>query_similarities\<close>.\<close>

record query_similarity_row =
  qs_id :: uuid
  qs_content :: string
  qs_metadata :: jsonb
  qs_query_idx :: int
  qs_similarity :: real

text \<open>\<^verbatim>\<open>unnest(query_embeddings) WITH ORDINALITY\<close>: the query vectors with their positions.\<close>

definition unnest_with_ordinality :: "'a list \<Rightarrow> ('a \<times> int) list" where
  "unnest_with_ordinality xs = zip xs [1..int (length xs)]"

definition query_similarities ::
  "cdist \<Rightarrow> vec list \<Rightarrow> embedding_row list \<Rightarrow> query_similarity_row list" where
  "query_similarities cd query_embeddings embeddings =
     concat (map (\<lambda>ev. map (\<lambda>q.
         \<lparr> qs_id = e_id (fst ev), qs_content = e_content (fst ev),
           qs_metadata = e_metadata (fst ev), qs_query_idx = snd q,
           qs_similarity = 1 - cd (snd ev) (fst q) \<rparr>)
         (unnest_with_ordinality query_embeddings))
       (not_null_embedding embeddings))"

text \<open>A row of the CTE \<^verbatim>\<open>aggregated\<close>.\<close>

record aggregated_row =
  ag_id :: uuid
  ag_content :: string
  ag_metadata :: jsonb
  ag_max_sim :: real
  ag_avg_sim :: real
  ag_min_sim :: real
  ag_match_count :: int

text \<open>
  \<^verbatim>\<open>aggregated\<close>: the pairs with a similarity above 0.5, grouped by
  \<^verbatim>\<open>(id, content, metadata)\<close>.
\<close>

definition aggregated :: "cdist \<Rightarrow> vec list \<Rightarrow> embedding_row list \<Rightarrow> aggregated_row list" where
  "aggregated cd query_embeddings embeddings =
     map (\<lambda>kg. \<lparr> ag_id = fst (fst kg), ag_content = fst (snd (fst kg)),
                 ag_metadata = snd (snd (fst kg)),
                 ag_max_sim = agg_max qs_similarity (snd kg),
                 ag_avg_sim = agg_avg qs_similarity (snd kg),
                 ag_min_sim = agg_min qs_similarity (snd kg),
                 ag_match_count = agg_count_distinct qs_query_idx (snd kg) \<rparr>)
       (group_by (\<lambda>r. (qs_id r, qs_content r, qs_metadata r))
         (filter (\<lambda>r. qs_similarity r > 0.5)
           (query_similarities cd query_embeddings embeddings)))"

text \<open>\<^verbatim>\<open>CASE aggregation_method WHEN 'max' ... WHEN 'avg' ... WHEN 'min' ... ELSE a.max_sim\<close>.\<close>

definition best_similarity :: "string \<Rightarrow> aggregated_row \<Rightarrow> real" where
  "best_similarity aggregation_method a =
     (if aggregation_method = ''max'' then ag_max_sim a
      else if aggregation_method = ''avg'' then ag_avg_sim a
      else if aggregation_method = ''min'' then ag_min_sim a
      else ag_max_sim a)"

definition cluster_select :: "string \<Rightarrow> aggregated_row \<Rightarrow> cluster_row" where
  "cluster_select aggregation_method a =
     \<lparr> cl_id = ag_id a, cl_content = ag_content a,
       cl_best_similarity = best_similarity aggregation_method a,
       cl_avg_similarity = ag_avg_sim a, cl_matching_queries = ag_match_count a,
       cl_metadata = ag_metadata a \<rparr>"

definition cluster_search ::
  "cdist \<Rightarrow> vec list \<Rightarrow> int \<Rightarrow> string \<Rightarrow> embedding_row list \<Rightarrow> sql_error + cluster_row list" where
  "cluster_search cd query_embeddings limit_count aggregation_method embeddings =
     sql_limit limit_count
       (map (cluster_select aggregation_method)
         (order_by_desc (best_similarity aggregation_method)
           (aggregated cd query_embeddings embeddings)))"

text \<open>The ranking of a result: the documents with their scores, in order.\<close>

definition cluster_ranking :: "cluster_row list \<Rightarrow> (uuid \<times> string \<times> jsonb \<times> real \<times> real) list" where
  "cluster_ranking rows =
     map (\<lambda>r. (cl_id r, cl_content r, cl_metadata r, cl_best_similarity r, cl_avg_similarity r))
       rows"


section \<open>Concrete tables\<close>

text \<open>Vectors of dimension 384, the dimension of the column and of the query parameters.\<close>

definition unit_vec_1 :: vec where
  "unit_vec_1 = 1 # replicate 383 0"

definition unit_vec_2 :: vec where
  "unit_vec_2 = 0 # 1 # replicate 382 0"

definition ones_vec :: vec where
  "ones_vec = replicate 384 1"

text \<open>
  Two rows with the vector \<open>unit_vec_1\<close>, so of equal similarity to that query, the larger
  id scanned first.
\<close>

definition tie_table :: "embedding_row list" where
  "tie_table =
     [\<lparr> e_id = 2, e_content = ''b'', e_embedding = Some unit_vec_1, e_metadata = [], e_created_at = 0 \<rparr>,
      \<lparr> e_id = 1, e_content = ''a'', e_embedding = Some unit_vec_1, e_metadata = [], e_created_at = 1 \<rparr>]"

text \<open>
  Five rows, three of them at similarity 1 to the query \<open>unit_vec_1\<close>, one at
  similarity 0 and one waiting for its embedding.
\<close>

definition rag_table :: "embedding_row list" where
  "rag_table =
     [\<lparr> e_id = 1, e_content = ''a'', e_embedding = Some unit_vec_1, e_metadata = [], e_created_at = 0 \<rparr>,
      \<lparr> e_id = 2, e_content = ''b'', e_embedding = Some unit_vec_2, e_metadata = [], e_created_at = 1 \<rparr>,
      \<lparr> e_id = 3, e_content = ''c'', e_embedding = None, e_metadata = [], e_created_at = 2 \<rparr>,
      \<lparr> e_id = 4, e_content = ''d'', e_embedding = Some unit_vec_1, e_metadata = [], e_created_at = 3 \<rparr>,
      \<lparr> e_id = 5, e_content = ''e'', e_embedding = Some unit_vec_1, e_metadata = [], e_created_at = 4 \<rparr>]"


text \<open>
  Two rows with the vector \<open>unit_vec_1\<close>, the row created later scanned first.
\<close>

definition reversed_tie_table :: "embedding_row list" where
  "reversed_tie_table =
     [\<lparr> e_id = 1, e_content = ''a'', e_embedding = Some unit_vec_1, e_metadata = [], e_created_at = 1 \<rparr>,
      \<lparr> e_id = 2, e_content = ''b'', e_embedding = Some unit_vec_1, e_metadata = [], e_created_at = 0 \<rparr>]"

text \<open>Two rows at different distances from the query \<open>unit_vec_1\<close>.\<close>

definition apart_table :: "embedding_row list" where
  "apart_table =
     [\<lparr> e_id = 1, e_content = ''a'', e_embedding = Some unit_vec_2, e_metadata = [], e_created_at = 5 \<rparr>,
      \<lparr> e_id = 2, e_content = ''b'', e_embedding = Some unit_vec_1, e_metadata = [], e_created_at = 3 \<rparr>]"

text \<open>Two rows whose vectors have a first component of 1, for the query \<open>ones_vec\<close>.\<close>

definition mh_table :: "embedding_row list" where
  "mh_table =
     [\<lparr> e_id = 1, e_content = ''a'', e_embedding = Some ones_vec, e_metadata = [], e_created_at = 0 \<rparr>,
      \<lparr> e_id = 2, e_content = ''b'', e_embedding = Some unit_vec_1, e_metadata = [], e_created_at = 1 \<rparr>]"


section \<open>Properties of the SQL fragments\<close>

lemma sorted_order_by_desc: "sorted_wrt (\<ge>) (map k (order_by_desc k rows))"
proof -
  have "sorted (map (\<lambda>r. - k r) (sort_key (\<lambda>r. - k r) rows))" by (rule sorted_sort_key)
  then have "sorted_wrt (\<lambda>a b. - k a \<le> - k b) (sort_key (\<lambda>r. - k r) rows)"
    by (simp add: sorted_map)
  then show ?thesis by (simp add: order_by_desc_def sorted_wrt_map)
qed


lemma sorted_wrt_take_list: "sorted_wrt R xs \<Longrightarrow> sorted_wrt R (take n xs)"
  by (metis append_take_drop_id sorted_wrt_append)


lemma sql_limit_ok: "0 \<le> n \<Longrightarrow> sql_limit n rows = Inr (take (nat n) rows)"
  by (simp add: sql_limit_def)

lemma map_insort_key:
  "map p (insort_key (\<lambda>x. k (p x)) x xs) = insort_key k (p x) (map p xs)"
  by (induction xs) simp_all

lemma map_sort_key:
  "map p (sort_key (\<lambda>x. k (p x)) xs) = sort_key k (map p xs)"
  by (induction xs) (simp_all add: map_insort_key)


lemmas table_eval = not_null_embedding_def map_filter_simps

lemmas sql_eval = sql_limit_def order_by_def order_by_desc_def order_by_desc_nulls_first_def
  sql_max_def sql_sum_def coalesce0_def nullif0_def div_nullif0_def

lemma dot_Cons [simp]: "dot (x # xs) (y # ys) = x * y + dot xs ys"
  by (simp add: dot_def)

lemma dot_Nil [simp]: "dot [] ys = 0" "dot xs [] = 0"
  by (simp_all add: dot_def)

lemma dot_zeros_left [simp]: "dot (replicate n 0) ys = 0"
proof (induction n arbitrary: ys)
  case 0
  then show ?case by simp
next
  case (Suc n)
  then show ?case by (cases ys) simp_all
qed

lemma dot_zeros_right [simp]: "dot xs (replicate n 0) = 0"
proof (induction n arbitrary: xs)
  case 0
  then show ?case by simp
next
  case (Suc n)
  then show ?case by (cases xs) simp_all
qed

lemma length_concrete_vectors [simp]:
  "length unit_vec_1 = 384" "length unit_vec_2 = 384" "length ones_vec = 384"
  by (simp_all add: unit_vec_1_def unit_vec_2_def ones_vec_def)

lemma replicate_383: "replicate 383 (0::real) = 0 # replicate 382 0"
proof -
  have "replicate (Suc 382) (0::real) = 0 # replicate 382 0" by (rule replicate_Suc)
  then show ?thesis by simp
qed

lemma cosine_distance_units [simp]:
  "cosine_distance unit_vec_1 unit_vec_1 = 0" "cosine_distance unit_vec_2 unit_vec_1 = 1"
  "cosine_distance unit_vec_1 unit_vec_2 = 1" "cosine_distance unit_vec_2 unit_vec_2 = 0"
  by (simp_all add: cosine_distance_def unit_vec_1_def unit_vec_2_def replicate_383)

lemma cosine_distance_unit1 [simp]: "cosine_distance [1] [1] = 0"
  by (simp add: cosine_distance_def dot_def)

lemma slice_first_component [simp]:
  "slice_subvector ones_vec 1 1 = Inr [1]" "slice_subvector unit_vec_1 1 1 = Inr [1]"
proof -
  have o: "ones_vec = 1 # replicate 383 1"
    unfolding ones_vec_def using replicate_Suc [of 383 "1::real"] by simp
  show "slice_subvector ones_vec 1 1 = Inr [1]"
    unfolding o by (simp add: slice_subvector_def)
  show "slice_subvector unit_vec_1 1 1 = Inr [1]"
    by (simp add: slice_subvector_def unit_vec_1_def)
qed


section \<open>Two-stage retrieval: the second stage\<close>

lemma coarse_results_ok:
  "0 \<le> coarse_limit \<Longrightarrow>
   coarse_results cd q coarse_limit embeddings =
     Inr (take (nat coarse_limit) (map (coarse_select cd q)
           (order_by (\<lambda>ev. cd (snd ev) q) (not_null_embedding embeddings))))"
  by (simp add: coarse_results_def sql_limit_ok)

lemma coarse_sim_exact:
  assumes "coarse_results cd q coarse_limit embeddings = Inr crs" and "cr \<in> set crs"
  shows "cr_coarse_sim cr = 1 - cd (cr_embedding cr) q"
proof -
  from assms(1) have "crs = take (nat coarse_limit) (map (coarse_select cd q)
           (order_by (\<lambda>ev. cd (snd ev) q) (not_null_embedding embeddings)))"
    by (simp add: coarse_results_def sql_limit_def split: if_splits)
  with assms(2) have "cr \<in> set (map (coarse_select cd q)
           (order_by (\<lambda>ev. cd (snd ev) q) (not_null_embedding embeddings)))"
    by (metis in_set_takeD)
  then show ?thesis by (auto simp: coarse_select_def)
qed

lemma stage2_filter:
  assumes "coarse_results cd q coarse_limit embeddings = Inr crs"
  shows "map (rag_select cd q) (filter (\<lambda>cr. cr_coarse_sim cr \<ge> ms) crs)
           = stage2_survivors cd q ms crs"
proof -
  have "filter (\<lambda>cr. cr_coarse_sim cr \<ge> ms) crs
          = filter (\<lambda>cr. rr_exact_similarity (rag_select cd q cr) \<ge> ms) crs"
    by (rule filter_cong) (auto simp: rag_select_def coarse_sim_exact [OF assms])
  then show ?thesis
    by (simp add: stage2_survivors_def filter_map comp_def)
qed

text \<open>
  Claim C8: for limits that are not negative, \<^verbatim>\<open>rag_retrieve\<close> returns without error
  the first \<open>final_limit\<close> rows of the stage-2 survivors (the coarse candidates whose
  recomputed similarity reaches \<open>min_similarity\<close>) in descending order of exact
  similarity. The filter of the code reads the coarse similarity, which on every
  candidate is the same number as the exact one. When no more than \<open>final_limit\<close>
  candidates survive, the result holds exactly the survivors.
\<close>

theorem rag_retrieve_stage2:
  assumes "0 \<le> coarse_limit" and "0 \<le> final_limit"
  shows "\<exists>crs rows. coarse_results cd q coarse_limit embeddings = Inr crs
     \<and> rag_retrieve cd q coarse_limit final_limit ms embeddings = Inr rows
     \<and> rows = take (nat final_limit)
                (order_by_desc rr_exact_similarity (stage2_survivors cd q ms crs))
     \<and> (\<forall>r\<in>set rows. rr_exact_similarity r \<ge> ms
                        \<and> rr_coarse_similarity r = rr_exact_similarity r)
     \<and> sorted_wrt (\<ge>) (map rr_exact_similarity rows)
     \<and> length rows = min (nat final_limit) (length (stage2_survivors cd q ms crs))
     \<and> (length (stage2_survivors cd q ms crs) \<le> nat final_limit
          \<longrightarrow> mset rows = mset (stage2_survivors cd q ms crs))"
proof -
  obtain crs where crs: "coarse_results cd q coarse_limit embeddings = Inr crs"
    using coarse_results_ok [OF assms(1)] by blast
  let ?surv = "stage2_survivors cd q ms crs"
  let ?rows = "take (nat final_limit) (order_by_desc rr_exact_similarity ?surv)"
  have run: "rag_retrieve cd q coarse_limit final_limit ms embeddings = Inr ?rows"
    using assms(2) by (simp add: rag_retrieve_def crs stage2_filter [OF crs] sql_limit_ok)
  have sub: "set ?rows \<subseteq> set ?surv"
    using set_take_subset [of "nat final_limit" "order_by_desc rr_exact_similarity ?surv"]
    by (simp add: order_by_desc_def)
  have thr: "rr_exact_similarity r \<ge> ms \<and> rr_coarse_similarity r = rr_exact_similarity r"
    if "r \<in> set ?rows" for r
  proof -
    from that sub have "r \<in> set ?surv" by blast
    then obtain cr where "cr \<in> set crs" "r = rag_select cd q cr" "rr_exact_similarity r \<ge> ms"
      by (auto simp: stage2_survivors_def)
    then show ?thesis
      using coarse_sim_exact [OF crs] by (simp add: rag_select_def)
  qed
  have desc: "sorted_wrt (\<ge>) (map rr_exact_similarity ?rows)"
    using sorted_order_by_desc [of rr_exact_similarity ?surv]
    by (simp add: sorted_wrt_take_list flip: take_map)
  have len: "length ?rows = min (nat final_limit) (length ?surv)"
    by (simp add: order_by_desc_def)
  have all: "mset ?rows = mset ?surv" if "length ?surv \<le> nat final_limit"
    using that by (simp add: order_by_desc_def)
  from crs run thr desc len all show ?thesis by blast
qed

theorem rag_retrieve_stage2_witness:
  "(0::int) \<le> 5 \<and> (0::int) \<le> 10
   \<and> (\<exists>rows. rag_retrieve cosine_distance unit_vec_1 5 10 (6/10) rag_table = Inr rows
        \<and> map rr_id rows = [1, 4, 5] \<and> map rr_exact_similarity rows = [1, 1, 1])"
proof -
  have h1: "(0::int) \<le> 5" and h2: "(0::int) \<le> 10" by simp_all
  have ev: "map rr_id (take (nat 10) (order_by_desc rr_exact_similarity
               (stage2_survivors cosine_distance unit_vec_1 (6/10)
                 (take (nat 5) (map (coarse_select cosine_distance unit_vec_1)
                   (order_by (\<lambda>ev. cosine_distance (snd ev) unit_vec_1)
                     (not_null_embedding rag_table))))))) = [1, 4, 5]"
    and ev': "map rr_exact_similarity (take (nat 10) (order_by_desc rr_exact_similarity
               (stage2_survivors cosine_distance unit_vec_1 (6/10)
                 (take (nat 5) (map (coarse_select cosine_distance unit_vec_1)
                   (order_by (\<lambda>ev. cosine_distance (snd ev) unit_vec_1)
                     (not_null_embedding rag_table))))))) = [1, 1, 1]"
    by (simp_all add: stage2_survivors_def order_by_def order_by_desc_def
        rag_table_def not_null_embedding_def map_filter_simps coarse_select_def rag_select_def)
  from rag_retrieve_stage2 [OF h1 h2, of cosine_distance unit_vec_1 rag_table "6/10"]
  obtain crs rows where
    c: "coarse_results cosine_distance unit_vec_1 5 rag_table = Inr crs" and
    r: "rag_retrieve cosine_distance unit_vec_1 5 10 (6/10) rag_table = Inr rows" and
    e: "rows = take (nat 10) (order_by_desc rr_exact_similarity
                (stage2_survivors cosine_distance unit_vec_1 (6/10) crs))"
    by blast
  from c have "crs = take (nat 5) (map (coarse_select cosine_distance unit_vec_1)
                   (order_by (\<lambda>ev. cosine_distance (snd ev) unit_vec_1)
                     (not_null_embedding rag_table)))"
    by (simp add: coarse_results_ok)
  with e ev ev' r show ?thesis by simp
qed


section \<open>MMR: the selection loop\<close>

lemma max_sim_to_selected_Nil [simp]: "max_sim_to_selected cd emb [] = 0"
  by (simp add: max_sim_to_selected_def sql_max_def coalesce0_def)

lemma mmr_order_key_lambda1:
  "mmr_order_key cd q 1 sel = (\<lambda>ev. 1 - cd (snd ev) q)"
  by (rule ext) (simp add: mmr_order_key_def)

lemma not_null_embedding_fst:
  "map fst (not_null_embedding embeddings) = filter (\<lambda>e. e_embedding e \<noteq> None) embeddings"
  by (induction embeddings) (auto simp: not_null_embedding_def map_filter_simps)

lemma distinct_not_null_embedding:
  assumes "distinct (map e_id embeddings)"
  shows "distinct (map (\<lambda>ev. e_id (fst ev)) (not_null_embedding embeddings))"
proof -
  have "map (\<lambda>ev. e_id (fst ev)) (not_null_embedding embeddings)
          = map e_id (map fst (not_null_embedding embeddings))" by simp
  also have "\<dots> = map e_id (filter (\<lambda>e. e_embedding e \<noteq> None) embeddings)"
    by (simp only: not_null_embedding_fst)
  finally show ?thesis using assms by (simp add: distinct_map_filter)
qed

lemma distinct_map_sort_key:
  "distinct (map f (sort_key k xs)) = distinct (map f xs)"
proof -
  have "mset (map f (sort_key k xs)) = mset (map f xs)" by simp
  then show ?thesis by (metis mset_eq_imp_distinct_iff)
qed

lemma filter_not_in_take:
  assumes "distinct (map f xs)"
  shows "filter (\<lambda>x. f x \<notin> set (map f (take j xs))) xs = drop j xs"
  using assms
proof (induction xs arbitrary: j)
  case Nil
  then show ?case by simp
next
  case (Cons x xs)
  show ?case
  proof (cases j)
    case 0
    then show ?thesis by simp
  next
    case (Suc i)
    from Cons.prems have nx: "f x \<notin> f ` set xs" and d: "distinct (map f xs)" by simp_all
    have "filter (\<lambda>y. f y \<notin> set (map f (take j (x # xs)))) xs
            = filter (\<lambda>y. f y \<notin> set (map f (take i xs))) xs"
      using nx Suc by (intro filter_cong) (auto simp: image_iff)
    with Cons.IH [OF d, of i] Suc show ?thesis by simp
  qed
qed

lemma mmr_loop_lambda1:
  assumes "distinct (map (\<lambda>ev. e_id (fst ev)) (relevance_ranking cd q embeddings))"
  shows "map mr_id (mmr_loop cd q 1 embeddings n
            (map (\<lambda>ev. e_id (fst ev)) (take j (relevance_ranking cd q embeddings))) sel)
          = map (\<lambda>ev. e_id (fst ev)) (take n (drop j (relevance_ranking cd q embeddings)))
       \<and> map mr_relevance (mmr_loop cd q 1 embeddings n
            (map (\<lambda>ev. e_id (fst ev)) (take j (relevance_ranking cd q embeddings))) sel)
          = map (\<lambda>ev. 1 - cd (snd ev) q) (take n (drop j (relevance_ranking cd q embeddings)))"
proof (induction n arbitrary: j sel)
  case 0
  then show ?case by simp
next
  case (Suc n)
  let ?S = "relevance_ranking cd q embeddings"
  let ?ids = "map (\<lambda>ev. e_id (fst ev)) (take j ?S)"
  have cand: "order_by_desc (mmr_order_key cd q 1 sel)
                (filter (\<lambda>ev. e_id (fst ev) \<notin> set ?ids) (not_null_embedding embeddings))
              = drop j ?S"
  proof -
    have "order_by_desc (mmr_order_key cd q 1 sel)
                (filter (\<lambda>ev. e_id (fst ev) \<notin> set ?ids) (not_null_embedding embeddings))
          = filter (\<lambda>ev. e_id (fst ev) \<notin> set ?ids) ?S"
      by (simp add: mmr_order_key_lambda1 order_by_desc_def relevance_ranking_def filter_sort)
    also have "\<dots> = drop j ?S"
      using filter_not_in_take [OF assms, of j] by simp
    finally show ?thesis .
  qed
  show ?case
  proof (cases "drop j ?S")
    case Nil
    then show ?thesis using cand by simp
  next
    case (Cons r rest)
    then have j: "j < length ?S" by (cases "j < length ?S") auto
    with Cons have r: "r = ?S ! j" and rest: "rest = drop (Suc j) ?S"
      by (simp_all add: Cons_nth_drop_Suc [symmetric])
    have ids': "?ids @ [e_id (fst r)] = map (\<lambda>ev. e_id (fst ev)) (take (Suc j) ?S)"
      using j r by (simp add: take_Suc_conv_app_nth)
    from Suc.IH [of "Suc j" "sel @ [snd r]"] cand Cons ids' rest
    show ?thesis by (simp add: Let_def)
  qed
qed

text \<open>
  Claim C7: on a table whose ids are distinct, \<^verbatim>\<open>mmr_search\<close> with \<open>lambda = 1\<close>
  returns the documents of the pure relevance ranking (the rows with a vector by descending
  similarity to the query), in that order and cut at the limit, whatever the vectors are.
  For every \<open>lambda\<close> the penalty term of the first selection is 0: the order key over
  an empty selection is \<open>lambda * relevance\<close>, and the first returned row reports a
  diversity penalty of 0.
\<close>

theorem mmr_search_lambda1:
  assumes "distinct (map e_id embeddings)"
  shows "\<exists>rows. mmr_search cd q limit_count 1 embeddings = Inr rows
      \<and> map mr_id rows
          = map (\<lambda>ev. e_id (fst ev)) (take (nat limit_count) (relevance_ranking cd q embeddings))
      \<and> map mr_relevance rows
          = map (\<lambda>ev. 1 - cd (snd ev) q) (take (nat limit_count) (relevance_ranking cd q embeddings))
      \<and> sorted_wrt (\<ge>) (map mr_relevance rows)
      \<and> (\<forall>lambda ev. mmr_order_key cd q lambda [] ev = lambda * (1 - cd (snd ev) q))
      \<and> (\<forall>lambda r rest. mmr_search cd q limit_count lambda embeddings = Inr (r # rest)
            \<longrightarrow> mr_diversity_penalty r = 0)"
proof -
  let ?S = "relevance_ranking cd q embeddings"
  have d: "distinct (map (\<lambda>ev. e_id (fst ev)) ?S)"
    using distinct_not_null_embedding [OF assms]
    by (simp add: relevance_ranking_def order_by_desc_def distinct_map_sort_key)
  from mmr_loop_lambda1 [OF d, of "nat limit_count" 0 "[]"]
  have ids: "map mr_id (mmr_loop cd q 1 embeddings (nat limit_count) [] [])
               = map (\<lambda>ev. e_id (fst ev)) (take (nat limit_count) ?S)"
    and rel: "map mr_relevance (mmr_loop cd q 1 embeddings (nat limit_count) [] [])
               = map (\<lambda>ev. 1 - cd (snd ev) q) (take (nat limit_count) ?S)"
    by simp_all
  have "sorted_wrt (\<ge>) (map (\<lambda>ev. 1 - cd (snd ev) q) ?S)"
    unfolding relevance_ranking_def by (rule sorted_order_by_desc)
  then have srt: "sorted_wrt (\<ge>) (map (\<lambda>ev. 1 - cd (snd ev) q) (take (nat limit_count) ?S))"
    by (simp add: sorted_wrt_take_list flip: take_map)
  have key: "mmr_order_key cd q lambda [] ev = lambda * (1 - cd (snd ev) q)" for lambda ev
    by (simp add: mmr_order_key_def)
  have first: "mr_diversity_penalty r = 0"
    if "mmr_search cd q limit_count lambda embeddings = Inr (r # rest)" for lambda r rest
    using that
    by (cases "nat limit_count")
       (auto simp: mmr_search_def Let_def split: list.splits)
  from ids rel srt key first show ?thesis
    by (simp add: mmr_search_def)
qed

theorem mmr_search_lambda1_witness:
  "distinct (map e_id rag_table)
   \<and> (\<exists>rows. mmr_search cosine_distance unit_vec_1 3 1 rag_table = Inr rows
         \<and> map mr_id rows = [1, 4, 5] \<and> map mr_relevance rows = [1, 1, 1])"
proof -
  have h: "distinct (map e_id rag_table)" by (simp add: rag_table_def)
  have r: "take (nat 3) (relevance_ranking cosine_distance unit_vec_1 rag_table)
             = take 3 (relevance_ranking cosine_distance unit_vec_1 rag_table)" by simp
  have ev: "map (\<lambda>ev. e_id (fst ev)) (take 3 (relevance_ranking cosine_distance unit_vec_1 rag_table))
              = [1, 4, 5]"
    "map (\<lambda>ev. 1 - cosine_distance (snd ev) unit_vec_1)
        (take 3 (relevance_ranking cosine_distance unit_vec_1 rag_table)) = [1, 1, 1]"
    by (simp_all add: relevance_ranking_def order_by_desc_def rag_table_def table_eval)
  from mmr_search_lambda1 [OF h, of cosine_distance unit_vec_1 3] h ev r
  show ?thesis by auto
qed

lemma hd_order_by_desc_in:
  "order_by_desc k rows = r # rest \<Longrightarrow> r \<in> set rows"
  by (metis list.set_intros(1) order_by_desc_def set_sort)

lemma mmr_loop_fresh:
  "r \<in> set (mmr_loop cd q lambda embeddings n selected_ids sel) \<Longrightarrow> mr_id r \<notin> set selected_ids"
proof (induction n arbitrary: selected_ids sel)
  case 0
  then show ?case by simp
next
  case (Suc n)
  let ?cand = "filter (\<lambda>ev. e_id (fst ev) \<notin> set selected_ids) (not_null_embedding embeddings)"
  show ?case
  proof (cases "order_by_desc (mmr_order_key cd q lambda sel) ?cand")
    case Nil
    with Suc.prems show ?thesis by simp
  next
    case (Cons rec rest)
    from hd_order_by_desc_in [OF Cons] have fresh: "e_id (fst rec) \<notin> set selected_ids" by simp
    from Suc.prems Cons
    consider "mr_id r = e_id (fst rec)"
      | "r \<in> set (mmr_loop cd q lambda embeddings n (selected_ids @ [e_id (fst rec)]) (sel @ [snd rec]))"
      by (auto simp: Let_def)
    then show ?thesis
    proof cases
      case 1
      with fresh show ?thesis by simp
    next
      case 2
      from Suc.IH [OF 2] show ?thesis by simp
    qed
  qed
qed

lemma mmr_loop_distinct:
  "distinct (map mr_id (mmr_loop cd q lambda embeddings n selected_ids sel))"
proof (induction n arbitrary: selected_ids sel)
  case 0
  then show ?case by simp
next
  case (Suc n)
  let ?cand = "filter (\<lambda>ev. e_id (fst ev) \<notin> set selected_ids) (not_null_embedding embeddings)"
  show ?case
  proof (cases "order_by_desc (mmr_order_key cd q lambda sel) ?cand")
    case Nil
    then show ?thesis by simp
  next
    case (Cons rec rest)
    let ?tail = "mmr_loop cd q lambda embeddings n (selected_ids @ [e_id (fst rec)]) (sel @ [snd rec])"
    have "e_id (fst rec) \<notin> mr_id ` set ?tail"
    proof
      assume "e_id (fst rec) \<in> mr_id ` set ?tail"
      then obtain r where r: "r \<in> set ?tail" "mr_id r = e_id (fst rec)" by auto
      from mmr_loop_fresh [OF r(1)] r(2) show False by simp
    qed
    with Suc.IH [of "selected_ids @ [e_id (fst rec)]" "sel @ [snd rec]"] Cons
    show ?thesis by (simp add: Let_def)
  qed
qed

lemma length_filter_remove_key:
  assumes "distinct (map f xs)" and "x \<in> set xs"
  shows "Suc (length (filter (\<lambda>y. f y \<noteq> f x) xs)) = length xs"
  using assms
proof (induction xs)
  case Nil
  then show ?case by simp
next
  case (Cons a xs)
  show ?case
  proof (cases "a = x")
    case True
    with Cons.prems have "\<forall>y\<in>set xs. f y \<noteq> f x" by (auto simp: image_iff)
    then have "filter (\<lambda>y. f y \<noteq> f x) xs = xs" by (simp add: filter_id_conv)
    with True show ?thesis by simp
  next
    case False
    with Cons.prems have "x \<in> set xs" "f a \<noteq> f x" "distinct (map f xs)" by (auto simp: image_iff)
    with Cons.IH show ?thesis by simp
  qed
qed

lemma mmr_loop_length:
  assumes "distinct (map (\<lambda>ev. e_id (fst ev)) (not_null_embedding embeddings))"
  shows "length (mmr_loop cd q lambda embeddings n selected_ids sel)
           = min n (length (filter (\<lambda>ev. e_id (fst ev) \<notin> set selected_ids)
                              (not_null_embedding embeddings)))"
proof (induction n arbitrary: selected_ids sel)
  case 0
  then show ?case by simp
next
  case (Suc n)
  let ?all = "not_null_embedding embeddings"
  let ?cand = "filter (\<lambda>ev. e_id (fst ev) \<notin> set selected_ids) ?all"
  show ?case
  proof (cases "order_by_desc (mmr_order_key cd q lambda sel) ?cand")
    case Nil
    then have "length ?cand = 0"
      by (metis length_sort list.size(3) order_by_desc_def)
    with Nil show ?thesis by simp
  next
    case (Cons rec rest)
    from hd_order_by_desc_in [OF Cons] have rec: "rec \<in> set ?cand" .
    have dc: "distinct (map (\<lambda>ev. e_id (fst ev)) ?cand)"
      using assms by (rule distinct_map_filter)
    have "filter (\<lambda>ev. e_id (fst ev) \<notin> set (selected_ids @ [e_id (fst rec)])) ?all
            = filter (\<lambda>ev. e_id (fst ev) \<noteq> e_id (fst rec)) ?cand"
      by (auto intro: filter_cong)
    with length_filter_remove_key [OF dc rec]
    have "Suc (length (filter (\<lambda>ev. e_id (fst ev) \<notin> set (selected_ids @ [e_id (fst rec)])) ?all))
            = length ?cand" by simp
    with Suc.IH [of "selected_ids @ [e_id (fst rec)]" "sel @ [snd rec]"] Cons
    show ?thesis by (simp add: Let_def)
  qed
qed

text \<open>
  Claim C10: on a table whose ids are distinct, the rows \<^verbatim>\<open>mmr_search\<close> returns carry
  pairwise different ids, and their number is the smaller of the limit and the number of
  table rows that have a vector (a limit below 0 counts as 0: the loop does not run).
\<close>

theorem mmr_search_distinct_length:
  assumes "distinct (map e_id embeddings)"
  shows "\<exists>rows. mmr_search cd q limit_count lambda embeddings = Inr rows
      \<and> distinct (map mr_id rows)
      \<and> length rows = min (nat limit_count) (length (not_null_embedding embeddings))"
  using mmr_loop_length [OF distinct_not_null_embedding [OF assms],
          of cd q lambda "nat limit_count" "[]" "[]"]
  by (simp add: mmr_search_def mmr_loop_distinct)

theorem mmr_search_distinct_length_witness:
  "distinct (map e_id rag_table)
   \<and> (\<exists>rows. mmr_search cosine_distance unit_vec_1 10 (1/2) rag_table = Inr rows
         \<and> distinct (map mr_id rows) \<and> length rows = 4)"
proof -
  have h: "distinct (map e_id rag_table)" by (simp add: rag_table_def)
  have n: "length (not_null_embedding rag_table) = 4"
    by (simp add: rag_table_def table_eval)
  from mmr_search_distinct_length [OF h, of cosine_distance unit_vec_1 10 "1/2"] h n
  show ?thesis by auto
qed


section \<open>Attention scores: the softmax over the corpus\<close>

lemma sum_list_exp_pos: "xs \<noteq> [] \<Longrightarrow> 0 < sum_list (map (\<lambda>x. exp (f x :: real)) xs)"
proof (cases xs)
  case Nil
  then show "xs \<noteq> [] \<Longrightarrow> ?thesis" by simp
next
  case (Cons a ys)
  have "0 \<le> sum_list (map (\<lambda>x. exp (f x)) ys)" by (rule sum_list_nonneg) auto
  with Cons show ?thesis by (simp add: add_pos_nonneg)
qed

lemma softmax_sum_Some:
  "rows \<noteq> [] \<Longrightarrow> softmax_sum cd q t rows
       = Some (sum_list (map (\<lambda>ev. exp (attention_exponent cd q t (snd ev))) rows))"
  by (simp add: softmax_sum_def sql_sum_def)

lemma div_nullif0_pos: "0 < s \<Longrightarrow> div_nullif0 x (Some s) = Some (x / s)"
  by (simp add: div_nullif0_def nullif0_def)

lemma attention_weight_plain:
  assumes "ev \<in> set rows"
  shows "ar_attention_weight (attention_select cd q t (softmax_sum cd q t rows) ev)
           = Some (exp (attention_exponent cd q t (snd ev))
                   / sum_list (map (\<lambda>ev. exp (attention_exponent cd q t (snd ev))) rows))"
proof -
  from assms have ne: "rows \<noteq> []" by auto
  show ?thesis
    by (simp add: attention_select_def softmax_sum_Some [OF ne] div_nullif0_pos sum_list_exp_pos [OF ne])
qed

lemma stable_softmax_weight_eq:
  assumes "rows \<noteq> []"
  shows "stable_softmax_weight cd q t rows emb
           = exp (attention_exponent cd q t emb)
             / sum_list (map (\<lambda>ev. exp (attention_exponent cd q t (snd ev))) rows)"
proof -
  define m where "m = coalesce0 (sql_max (map (\<lambda>ev. attention_exponent cd q t (snd ev)) rows))"
  have "sum_list (map (\<lambda>ev. exp (attention_exponent cd q t (snd ev) - m)) rows)
          = sum_list (map (\<lambda>ev. exp (- m) * exp (attention_exponent cd q t (snd ev))) rows)"
    by (simp add: exp_diff exp_minus divide_inverse mult.commute)
  also have "\<dots> = exp (- m) * sum_list (map (\<lambda>ev. exp (attention_exponent cd q t (snd ev))) rows)"
    by (simp add: sum_list_const_mult)
  finally have s: "sum_list (map (\<lambda>ev. exp (attention_exponent cd q t (snd ev) - m)) rows)
          = exp (- m) * sum_list (map (\<lambda>ev. exp (attention_exponent cd q t (snd ev))) rows)" .
  have "exp (attention_exponent cd q t emb - m) = exp (- m) * exp (attention_exponent cd q t emb)"
    by (simp add: exp_diff exp_minus divide_inverse mult.commute)
  with s show ?thesis
    by (simp add: stable_softmax_weight_def stable_exponent_def m_def [symmetric])
qed

lemma order_by_desc_nulls_first_no_null:
  "\<forall>r\<in>set rows. k r \<noteq> None \<Longrightarrow>
     order_by_desc_nulls_first k rows = order_by_desc (\<lambda>r. coalesce0 (k r)) rows"
  by (simp add: order_by_desc_nulls_first_def filter_id_conv filter_empty_conv)

lemma sum_list_divide: "sum_list (map (\<lambda>x. f x / (c::real)) xs) = sum_list (map f xs) / c"
  by (induction xs) (simp_all add: add_divide_distrib)

lemma attention_select_not_null:
  "\<forall>r\<in>set (map (attention_select cd q t (softmax_sum cd q t rows)) rows).
      ar_attention_weight r \<noteq> None"
  by (auto simp: attention_weight_plain)

lemma attention_scores_ok:
  assumes "temperature \<noteq> 0" and "0 \<le> limit_count"
  shows "attention_scores cd q limit_count temperature embeddings
    = Inr (take (nat limit_count)
        (order_by_desc (\<lambda>r. coalesce0 (ar_attention_weight r))
          (map (attention_select cd q temperature
                 (softmax_sum cd q temperature (not_null_embedding embeddings)))
            (not_null_embedding embeddings))))"
  using assms
  by (simp add: attention_scores_def Let_def sql_limit_ok
      order_by_desc_nulls_first_no_null [OF attention_select_not_null])

text \<open>
  Claim C1, as the specification states it, fails: the number \<^verbatim>\<open>attention_scores\<close>
  hands to \<^verbatim>\<open>EXP\<close> is \<open>(1 - distance) / temperature\<close> itself, not that number minus
  the maximum over the corpus. On \<open>tie_table\<close> with query \<open>unit_vec_1\<close> and temperature 1 the
  code exponentiates 1 where the max-subtracted form exponentiates 0.
\<close>

theorem attention_scores_exponent_counterexample:
  "attention_exponent cosine_distance unit_vec_1 1 unit_vec_1 = 1
   \<and> stable_exponent cosine_distance unit_vec_1 1 (not_null_embedding tie_table) unit_vec_1 = 0
   \<and> \<not> (\<forall>ev\<in>set (not_null_embedding tie_table).
        attention_exponent cosine_distance unit_vec_1 1 (snd ev)
          = stable_exponent cosine_distance unit_vec_1 1 (not_null_embedding tie_table) (snd ev))"
  by (auto simp: attention_exponent_def stable_exponent_def tie_table_def table_eval
      sql_max_def coalesce0_def)

text \<open>
  Claim C1, amended: for a temperature other than 0 and a limit that is not negative,
  \<^verbatim>\<open>attention_scores\<close> returns rows without error, and the weight of every row is the
  plain softmax over all table rows that have a vector: the exponential of
  \<open>(1 - distance) / temperature\<close> divided by the sum of these exponentials over the whole
  corpus, with no maximum subtracted. Over the real numbers this weight has the same
  value as the max-subtracted form. The rows are in descending order of weight and cut at
  the limit.
\<close>

theorem attention_scores_softmax:
  assumes "temperature \<noteq> 0" and "0 \<le> limit_count"
  shows "\<exists>rows. attention_scores cd q limit_count temperature embeddings = Inr rows
     \<and> (\<forall>r\<in>set rows. \<exists>ev\<in>set (not_null_embedding embeddings).
            ar_id r = e_id (fst ev) \<and> ar_raw_score r = 1 - cd (snd ev) q
          \<and> ar_attention_weight r
              = Some (exp (attention_exponent cd q temperature (snd ev))
                      / sum_list (map (\<lambda>ev. exp (attention_exponent cd q temperature (snd ev)))
                                   (not_null_embedding embeddings)))
          \<and> ar_attention_weight r
              = Some (stable_softmax_weight cd q temperature (not_null_embedding embeddings) (snd ev)))
     \<and> sorted_wrt (\<ge>) (map (\<lambda>r. coalesce0 (ar_attention_weight r)) rows)
     \<and> length rows = min (nat limit_count) (length (not_null_embedding embeddings))"
proof -
  let ?all = "not_null_embedding embeddings"
  let ?sel = "attention_select cd q temperature (softmax_sum cd q temperature ?all)"
  let ?Z = "sum_list (map (\<lambda>ev. exp (attention_exponent cd q temperature (snd ev))) ?all)"
  let ?sorted = "order_by_desc (\<lambda>r. coalesce0 (ar_attention_weight r)) (map ?sel ?all)"
  let ?rows = "take (nat limit_count) ?sorted"
  have run: "attention_scores cd q limit_count temperature embeddings = Inr ?rows"
    using assms by (rule attention_scores_ok)
  have sub: "set ?rows \<subseteq> ?sel ` set ?all"
    using set_take_subset [of "nat limit_count" ?sorted] by (simp add: order_by_desc_def)
  have src: "\<exists>ev\<in>set ?all. ar_id r = e_id (fst ev) \<and> ar_raw_score r = 1 - cd (snd ev) q
          \<and> ar_attention_weight r = Some (exp (attention_exponent cd q temperature (snd ev)) / ?Z)
          \<and> ar_attention_weight r = Some (stable_softmax_weight cd q temperature ?all (snd ev))"
    if "r \<in> set ?rows" for r
  proof -
    from that sub obtain ev where ev: "ev \<in> set ?all" "r = ?sel ev" by blast
    then have ne: "?all \<noteq> []" by auto
    have "ar_id r = e_id (fst ev)" "ar_raw_score r = 1 - cd (snd ev) q"
      using ev by (simp_all add: attention_select_def)
    moreover have "ar_attention_weight r = Some (exp (attention_exponent cd q temperature (snd ev)) / ?Z)"
      using ev attention_weight_plain [OF ev(1)] by simp
    ultimately show ?thesis
      using ev(1) stable_softmax_weight_eq [OF ne] by auto
  qed
  have desc: "sorted_wrt (\<ge>) (map (\<lambda>r. coalesce0 (ar_attention_weight r)) ?rows)"
    using sorted_order_by_desc [of "\<lambda>r. coalesce0 (ar_attention_weight r)" "map ?sel ?all"]
    by (simp add: sorted_wrt_take_list flip: take_map)
  have len: "length ?rows = min (nat limit_count) (length ?all)"
    by (simp add: order_by_desc_def)
  from run src desc len show ?thesis by blast
qed

theorem attention_scores_softmax_witness:
  "(1::real) \<noteq> 0 \<and> (0::int) \<le> 1
   \<and> (\<exists>rows. attention_scores cosine_distance unit_vec_1 1 1 tie_table = Inr rows \<and> length rows = 1)"
proof -
  have h1: "(1::real) \<noteq> 0" and h2: "(0::int) \<le> 1" by simp_all
  have n: "length (not_null_embedding tie_table) = 2"
    by (simp add: tie_table_def table_eval)
  from attention_scores_softmax [OF h1 h2, of cosine_distance unit_vec_1 tie_table] n
  show ?thesis by auto
qed


section \<open>Self-attention and cross-attention: normalisation and pruning\<close>

lemma window_sum_same_key:
  "key x = key p \<Longrightarrow> window_sum key f rows x = window_sum key f rows p"
  by (simp add: window_sum_def)

lemma window_softmax_partition_sum:
  assumes "p \<in> set rows"
  shows "sum_list (map (\<lambda>x. exp (g x) / window_sum key (\<lambda>x. exp (g x)) rows x)
                     (filter (\<lambda>x. key x = key p) rows)) = 1"
proof -
  let ?P = "filter (\<lambda>x. key x = key p) rows"
  let ?Z = "window_sum key (\<lambda>x. exp (g x)) rows p"
  from assms have "?P \<noteq> []" by (auto simp: filter_empty_conv)
  then have pos: "0 < ?Z" unfolding window_sum_def by (rule sum_list_exp_pos)
  have same: "window_sum key (\<lambda>x. exp (g x)) rows x = ?Z" if "x \<in> set ?P" for x
  proof -
    from that have "key x = key p" by simp
    then show ?thesis by (rule window_sum_same_key)
  qed
  have m: "map (\<lambda>x. exp (g x) / window_sum key (\<lambda>x. exp (g x)) rows x) ?P
          = map (\<lambda>x. exp (g x) / ?Z) ?P"
    by (rule map_cong) (simp_all only: same)
  have "sum_list (map (\<lambda>x. exp (g x) / window_sum key (\<lambda>x. exp (g x)) rows x) ?P)
          = sum_list (map (\<lambda>x. exp (g x) / ?Z) ?P)"
    by (simp only: m)
  also have "\<dots> = sum_list (map (\<lambda>x. exp (g x)) ?P) / ?Z"
    by (rule sum_list_divide)
  also have "\<dots> = 1" using pos by (simp add: window_sum_def)
  finally show ?thesis .
qed

lemma softmax_scores_partition:
  assumes "p \<in> set (softmax_scores cd source_ids head_count temperature embeddings)"
  shows "sum_list (map snd (filter (\<lambda>x. rs_s_id (fst x) = rs_s_id (fst p)
                                       \<and> rs_h_idx (fst x) = rs_h_idx (fst p))
            (softmax_scores cd source_ids head_count temperature embeddings))) = 1"
proof -
  let ?rs = "raw_scores cd source_ids head_count embeddings"
  let ?key = "\<lambda>x. (rs_s_id x, rs_h_idx x)"
  let ?w = "\<lambda>r. exp (rs_score r / temperature)
                  / window_sum ?key (\<lambda>x. exp (rs_score x / temperature)) ?rs r"
  from assms have fp: "fst p \<in> set ?rs" by (auto simp: softmax_scores_def Let_def)
  have "map snd (filter (\<lambda>x. rs_s_id (fst x) = rs_s_id (fst p) \<and> rs_h_idx (fst x) = rs_h_idx (fst p))
            (softmax_scores cd source_ids head_count temperature embeddings))
        = map ?w (filter (\<lambda>x. ?key x = ?key (fst p)) ?rs)"
    by (simp add: softmax_scores_def Let_def filter_map comp_def)
  then show ?thesis
    using window_softmax_partition_sum [OF fp, of "\<lambda>x. rs_score x / temperature" ?key]
    by simp
qed

lemma softmax_attention_partition:
  assumes "p \<in> set (softmax_attention cd query_ids key_value_filter temperature embeddings)"
  shows "sum_list (map snd (filter (\<lambda>x. ra_q_id (fst x) = ra_q_id (fst p))
            (softmax_attention cd query_ids key_value_filter temperature embeddings))) = 1"
proof -
  let ?ra = "raw_attention cd query_ids key_value_filter embeddings"
  let ?w = "\<lambda>r. exp (ra_score r / temperature)
                  / window_sum ra_q_id (\<lambda>x. exp (ra_score x / temperature)) ?ra r"
  from assms have fp: "fst p \<in> set ?ra" by (auto simp: softmax_attention_def Let_def)
  have "map snd (filter (\<lambda>x. ra_q_id (fst x) = ra_q_id (fst p))
            (softmax_attention cd query_ids key_value_filter temperature embeddings))
        = map ?w (filter (\<lambda>x. ra_q_id x = ra_q_id (fst p)) ?ra)"
    by (simp add: softmax_attention_def Let_def filter_map comp_def)
  then show ?thesis
    using window_softmax_partition_sum [OF fp, of "\<lambda>x. ra_score x / temperature" ra_q_id]
    by simp
qed

lemma raw_scores_covers:
  assumes "s \<in> set (source_embeddings source_ids embeddings)"
    and "t \<in> set (not_null_embedding embeddings)" and "1 \<le> h" and "h \<le> head_count"
  shows "\<exists>r\<in>set (raw_scores cd source_ids head_count embeddings).
           rs_s_id r = e_id (fst s) \<and> rs_t_id r = e_id (fst t) \<and> rs_h_idx r = h
           \<and> rs_score r = 1 - cd (snd s) (snd t)"
proof -
  define row where "row = (\<lambda>(s::embedding_row \<times> vec) (t::embedding_row \<times> vec) h.
         \<lparr> rs_s_id = e_id (fst s), rs_s_content = e_content (fst s),
           rs_t_id = e_id (fst t), rs_t_content = e_content (fst t),
           rs_h_idx = h, rs_score = 1 - cd (snd s) (snd t) \<rparr>)"
  have eq: "raw_scores cd source_ids head_count embeddings
      = concat (map (\<lambda>s. concat (map (\<lambda>t. map (row s t) (generate_series_from_1 head_count))
          (not_null_embedding embeddings))) (source_embeddings source_ids embeddings))"
    by (simp add: raw_scores_def row_def)
  from assms(3,4) have h: "h \<in> set (generate_series_from_1 head_count)"
    by (simp add: generate_series_from_1_def)
  then have "row s t h \<in> set (map (row s t) (generate_series_from_1 head_count))" by simp
  with assms(2) have "row s t h \<in> (\<Union>t\<in>set (not_null_embedding embeddings).
          set (map (row s t) (generate_series_from_1 head_count)))"
    by (rule UN_I)
  then have "row s t h \<in> set (concat (map (\<lambda>t. map (row s t)
          (generate_series_from_1 head_count)) (not_null_embedding embeddings)))"
    by simp
  with assms(1) have "row s t h \<in> (\<Union>s\<in>set (source_embeddings source_ids embeddings).
          set (concat (map (\<lambda>t. map (row s t)
          (generate_series_from_1 head_count)) (not_null_embedding embeddings))))"
    by (rule UN_I)
  then have "row s t h \<in> set (raw_scores cd source_ids head_count embeddings)"
    unfolding eq by simp
  moreover have "rs_s_id (row s t h) = e_id (fst s)" "rs_t_id (row s t h) = e_id (fst t)"
    "rs_h_idx (row s t h) = h" "rs_score (row s t h) = 1 - cd (snd s) (snd t)"
    by (simp_all add: row_def)
  ultimately show ?thesis by blast
qed

lemma softmax_scores_covers:
  assumes "s \<in> set (source_embeddings source_ids embeddings)"
    and "t \<in> set (not_null_embedding embeddings)" and "1 \<le> h" and "h \<le> head_count"
  shows "\<exists>p\<in>set (softmax_scores cd source_ids head_count temperature embeddings).
           rs_s_id (fst p) = e_id (fst s) \<and> rs_t_id (fst p) = e_id (fst t) \<and> rs_h_idx (fst p) = h
           \<and> rs_score (fst p) = 1 - cd (snd s) (snd t)"
proof -
  from raw_scores_covers [OF assms, of cd] obtain r where
    r: "r \<in> set (raw_scores cd source_ids head_count embeddings)"
       "rs_s_id r = e_id (fst s)" "rs_t_id r = e_id (fst t)" "rs_h_idx r = h"
       "rs_score r = 1 - cd (snd s) (snd t)" by blast
  have "fst ` set (softmax_scores cd source_ids head_count temperature embeddings)
          = set (raw_scores cd source_ids head_count embeddings)"
    by (simp add: softmax_scores_def Let_def image_image)
  with r(1) obtain p where "p \<in> set (softmax_scores cd source_ids head_count temperature embeddings)"
    "fst p = r" by (metis imageE)
  with r show ?thesis by blast
qed

lemma raw_attention_covers:
  assumes "q \<in> set (queries query_ids embeddings)"
    and "k \<in> set (keys query_ids key_value_filter embeddings)"
  shows "\<exists>r\<in>set (raw_attention cd query_ids key_value_filter embeddings).
           ra_q_id r = e_id (fst q) \<and> ra_k_id r = e_id (fst k)
           \<and> ra_score r = 1 - cd (snd q) (snd k)"
proof -
  define row where "row = (\<lambda>(q::embedding_row \<times> vec) (k::embedding_row \<times> vec).
         \<lparr> ra_q_id = e_id (fst q), ra_q_content = e_content (fst q),
           ra_k_id = e_id (fst k), ra_k_content = e_content (fst k),
           ra_k_meta = e_metadata (fst k), ra_score = 1 - cd (snd q) (snd k) \<rparr>)"
  have eq: "raw_attention cd query_ids key_value_filter embeddings
      = concat (map (\<lambda>q. map (row q) (keys query_ids key_value_filter embeddings))
          (queries query_ids embeddings))"
    by (simp add: raw_attention_def row_def)
  from assms(2) have "row q k \<in> set (map (row q) (keys query_ids key_value_filter embeddings))"
    by simp
  with assms(1) have "row q k \<in> (\<Union>q\<in>set (queries query_ids embeddings).
          set (map (row q) (keys query_ids key_value_filter embeddings)))"
    by (rule UN_I)
  then have "row q k \<in> set (raw_attention cd query_ids key_value_filter embeddings)"
    unfolding eq by simp
  moreover have "ra_q_id (row q k) = e_id (fst q)" "ra_k_id (row q k) = e_id (fst k)"
    "ra_score (row q k) = 1 - cd (snd q) (snd k)"
    by (simp_all add: row_def)
  ultimately show ?thesis by blast
qed

lemma softmax_attention_covers:
  assumes "q \<in> set (queries query_ids embeddings)"
    and "k \<in> set (keys query_ids key_value_filter embeddings)"
  shows "\<exists>p\<in>set (softmax_attention cd query_ids key_value_filter temperature embeddings).
           ra_q_id (fst p) = e_id (fst q) \<and> ra_k_id (fst p) = e_id (fst k)
           \<and> ra_score (fst p) = 1 - cd (snd q) (snd k)"
proof -
  from raw_attention_covers [OF assms, of cd] obtain r where
    r: "r \<in> set (raw_attention cd query_ids key_value_filter embeddings)"
       "ra_q_id r = e_id (fst q)" "ra_k_id r = e_id (fst k)"
       "ra_score r = 1 - cd (snd q) (snd k)" by blast
  have "fst ` set (softmax_attention cd query_ids key_value_filter temperature embeddings)
          = set (raw_attention cd query_ids key_value_filter embeddings)"
    by (simp add: softmax_attention_def Let_def image_image)
  with r(1) obtain p where
    "p \<in> set (softmax_attention cd query_ids key_value_filter temperature embeddings)"
    "fst p = r" by (metis imageE)
  with r show ?thesis by blast
qed

text \<open>
  Claim C3: for a temperature other than 0, \<^verbatim>\<open>self_attention\<close> and
  \<^verbatim>\<open>cross_attention\<close> return without error; before the pruning the weights of every
  partition (source and head index for self-attention, query for cross-attention) sum
  to 1; every partition holds a weight for every target (every row with a vector, or every
  key) of its source; and every row returned carries a weight above 0.01 that is one of
  the softmax weights.
\<close>

theorem attention_partitions_normalised:
  assumes "temperature \<noteq> 0"
  shows "(\<exists>rows. self_attention cd source_ids head_count temperature embeddings = Inr rows
            \<and> (\<forall>r\<in>set rows. sa_attention_score r > 0.01
                 \<and> (\<exists>p\<in>set (softmax_scores cd source_ids head_count temperature embeddings).
                       r = self_attention_select p)))
     \<and> (\<forall>p\<in>set (softmax_scores cd source_ids head_count temperature embeddings).
           sum_list (map snd (filter (\<lambda>x. rs_s_id (fst x) = rs_s_id (fst p)
                                          \<and> rs_h_idx (fst x) = rs_h_idx (fst p))
             (softmax_scores cd source_ids head_count temperature embeddings))) = 1)
     \<and> (\<forall>s\<in>set (source_embeddings source_ids embeddings).
         \<forall>t\<in>set (not_null_embedding embeddings). \<forall>h\<in>{1..head_count}.
           \<exists>p\<in>set (softmax_scores cd source_ids head_count temperature embeddings).
             rs_s_id (fst p) = e_id (fst s) \<and> rs_t_id (fst p) = e_id (fst t) \<and> rs_h_idx (fst p) = h)
     \<and> (\<exists>rows. cross_attention cd query_ids key_value_filter temperature embeddings = Inr rows
            \<and> (\<forall>r\<in>set rows. ca_attention_weight r > 0.01
                 \<and> (\<exists>p\<in>set (softmax_attention cd query_ids key_value_filter temperature embeddings).
                       r = cross_attention_select p)))
     \<and> (\<forall>p\<in>set (softmax_attention cd query_ids key_value_filter temperature embeddings).
           sum_list (map snd (filter (\<lambda>x. ra_q_id (fst x) = ra_q_id (fst p))
             (softmax_attention cd query_ids key_value_filter temperature embeddings))) = 1)
     \<and> (\<forall>q\<in>set (queries query_ids embeddings).
         \<forall>k\<in>set (keys query_ids key_value_filter embeddings).
           \<exists>p\<in>set (softmax_attention cd query_ids key_value_filter temperature embeddings).
             ra_q_id (fst p) = e_id (fst q) \<and> ra_k_id (fst p) = e_id (fst k))"
proof -
  let ?ss = "softmax_scores cd source_ids head_count temperature embeddings"
  let ?sa = "softmax_attention cd query_ids key_value_filter temperature embeddings"
  let ?rows = "order_by sa_source_id (order_by sa_head_idx (order_by_desc sa_attention_score
             (map self_attention_select (filter (\<lambda>ss. snd ss > 0.01) ?ss))))"
  let ?crows = "order_by ca_query_id (order_by_desc ca_attention_weight
             (map cross_attention_select (filter (\<lambda>sa. snd sa > 0.01) ?sa)))"
  have run: "self_attention cd source_ids head_count temperature embeddings = Inr ?rows"
    using assms by (simp add: self_attention_def)
  have set_rows: "set ?rows = self_attention_select ` {p \<in> set ?ss. snd p > 0.01}"
    by (simp add: order_by_def order_by_desc_def)
  have pr: "sa_attention_score r > 0.01 \<and> (\<exists>p\<in>set ?ss. r = self_attention_select p)"
    if "r \<in> set ?rows" for r
  proof -
    from that set_rows obtain p where "p \<in> set ?ss" "snd p > 0.01" "r = self_attention_select p"
      by blast
    then show ?thesis by (auto simp: self_attention_select_def)
  qed
  have crun: "cross_attention cd query_ids key_value_filter temperature embeddings = Inr ?crows"
    using assms by (simp add: cross_attention_def)
  have set_crows: "set ?crows = cross_attention_select ` {p \<in> set ?sa. snd p > 0.01}"
    by (simp add: order_by_def order_by_desc_def)
  have cpr: "ca_attention_weight r > 0.01 \<and> (\<exists>p\<in>set ?sa. r = cross_attention_select p)"
    if "r \<in> set ?crows" for r
  proof -
    from that set_crows obtain p where "p \<in> set ?sa" "snd p > 0.01" "r = cross_attention_select p"
      by blast
    then show ?thesis by (auto simp: cross_attention_select_def)
  qed
  have a: "\<exists>rows. self_attention cd source_ids head_count temperature embeddings = Inr rows
            \<and> (\<forall>r\<in>set rows. sa_attention_score r > 0.01
                 \<and> (\<exists>p\<in>set ?ss. r = self_attention_select p))"
    using run pr by blast
  have b: "\<exists>rows. cross_attention cd query_ids key_value_filter temperature embeddings = Inr rows
            \<and> (\<forall>r\<in>set rows. ca_attention_weight r > 0.01
                 \<and> (\<exists>p\<in>set ?sa. r = cross_attention_select p))"
    using crun cpr by blast
  have p1: "\<forall>p\<in>set ?ss.
           sum_list (map snd (filter (\<lambda>x. rs_s_id (fst x) = rs_s_id (fst p)
                                          \<and> rs_h_idx (fst x) = rs_h_idx (fst p)) ?ss)) = 1"
    by (rule ballI) (rule softmax_scores_partition)
  have p2: "\<forall>p\<in>set ?sa.
           sum_list (map snd (filter (\<lambda>x. ra_q_id (fst x) = ra_q_id (fst p)) ?sa)) = 1"
    by (rule ballI) (rule softmax_attention_partition)
  have c: "\<forall>s\<in>set (source_embeddings source_ids embeddings).
         \<forall>t\<in>set (not_null_embedding embeddings). \<forall>h\<in>{1..head_count}.
           \<exists>p\<in>set ?ss. rs_s_id (fst p) = e_id (fst s) \<and> rs_t_id (fst p) = e_id (fst t)
             \<and> rs_h_idx (fst p) = h"
  proof (intro ballI)
    fix s t h
    assume st: "s \<in> set (source_embeddings source_ids embeddings)"
       "t \<in> set (not_null_embedding embeddings)" and "h \<in> {1..head_count}"
    then have "1 \<le> h" "h \<le> head_count" by simp_all
    from softmax_scores_covers [OF st this, of cd temperature]
    show "\<exists>p\<in>set ?ss. rs_s_id (fst p) = e_id (fst s) \<and> rs_t_id (fst p) = e_id (fst t)
             \<and> rs_h_idx (fst p) = h" by blast
  qed
  have d: "\<forall>q\<in>set (queries query_ids embeddings).
         \<forall>k\<in>set (keys query_ids key_value_filter embeddings).
           \<exists>p\<in>set ?sa. ra_q_id (fst p) = e_id (fst q) \<and> ra_k_id (fst p) = e_id (fst k)"
  proof (intro ballI)
    fix q k
    assume qk: "q \<in> set (queries query_ids embeddings)"
       "k \<in> set (keys query_ids key_value_filter embeddings)"
    from softmax_attention_covers [OF qk, of cd temperature]
    show "\<exists>p\<in>set ?sa. ra_q_id (fst p) = e_id (fst q) \<and> ra_k_id (fst p) = e_id (fst k)"
      by blast
  qed
  show ?thesis
    by (rule conjI [OF a conjI [OF p1 conjI [OF c conjI [OF b conjI [OF p2 d]]]]])
qed

theorem attention_partitions_normalised_witness:
  "(1::real) \<noteq> 0
   \<and> (\<exists>rows. self_attention cosine_distance [2] 1 1 tie_table = Inr rows
         \<and> list_all (\<lambda>r. sa_attention_score r > 0.01) rows)
   \<and> (\<exists>rows. cross_attention cosine_distance [2] None 1 tie_table = Inr rows
         \<and> list_all (\<lambda>r. ca_attention_weight r > 0.01) rows)"
proof -
  have h: "(1::real) \<noteq> 0" by simp
  from attention_partitions_normalised [OF h, of cosine_distance "[2]" 1 tie_table "[2]" None]
  show ?thesis by (simp add: list_all_iff) blast
qed


section \<open>Cluster search: a repeated query vector, and the 0.5 threshold\<close>

lemma group_by_members:
  "(k, x, rest) \<in> set (group_by key rows) \<Longrightarrow>
     x \<in> set rows \<and> set rest \<subseteq> set rows \<and> key x = k \<and> (\<forall>y\<in>set rest. key y = k)"
proof (induction key rows rule: group_by.induct)
  case (1 key)
  then show ?case by simp
next
  case (2 key r rs)
  from "2.prems" consider "(k, x, rest) = (key r, r, filter (\<lambda>x. key x = key r) rs)"
    | "(k, x, rest) \<in> set (group_by key (filter (\<lambda>x. key x \<noteq> key r) rs))" by auto
  then show ?case
  proof cases
    case 1
    then show ?thesis by auto
  next
    case 2
    from "2.IH" [OF this] show ?thesis by auto
  qed
qed

lemma filter_concat_pairs:
  assumes "\<And>x. key (a x) = kap x" and "\<And>x. key (b x) = kap x"
  shows "filter (\<lambda>y. P (key y)) (concat (map (\<lambda>x. [a x, b x]) xs))
           = concat (map (\<lambda>x. [a x, b x]) (filter (\<lambda>x. P (kap x)) xs))"
  by (induction xs) (simp_all add: assms)

lemma group_by_pairs:
  assumes a: "\<And>x. key (a x) = kap x" and b: "\<And>x. key (b x) = kap x"
  shows "group_by key (concat (map (\<lambda>x. [a x, b x]) xs))
           = map (\<lambda>g. (fst g, a (fst (snd g)),
                         b (fst (snd g)) # concat (map (\<lambda>y. [a y, b y]) (snd (snd g)))))
               (group_by kap xs)"
  using a b
proof (induction kap xs rule: group_by.induct)
  case (1 kap)
  then show ?case by simp
next
  case (2 kap x rs)
  have f1: "filter (\<lambda>y. key y = kap x) (concat (map (\<lambda>x. [a x, b x]) rs))
              = concat (map (\<lambda>x. [a x, b x]) (filter (\<lambda>y. kap y = kap x) rs))"
    using filter_concat_pairs [of key a kap b "\<lambda>k. k = kap x" rs, OF "2.prems"] by simp
  have f2: "filter (\<lambda>y. key y \<noteq> kap x) (concat (map (\<lambda>x. [a x, b x]) rs))
              = concat (map (\<lambda>x. [a x, b x]) (filter (\<lambda>y. kap y \<noteq> kap x) rs))"
    using filter_concat_pairs [of key a kap b "\<lambda>k. k \<noteq> kap x" rs, OF "2.prems"] by simp
  from "2.IH" [OF "2.prems"] f1 f2 show ?case
    by (simp add: "2.prems")
qed

lemma group_by_map:
  assumes a: "\<And>x. key (a x) = kap x"
  shows "group_by key (map a xs)
           = map (\<lambda>g. (fst g, a (fst (snd g)), map a (snd (snd g)))) (group_by kap xs)"
  using a
proof (induction kap xs rule: group_by.induct)
  case (1 kap)
  then show ?case by simp
next
  case (2 kap x rs)
  from "2.IH" [OF "2.prems"] show ?case
    by (simp add: "2.prems" filter_map comp_def)
qed


lemma sum_list_concat_pairs:
  "sum_list (map f (concat (map (\<lambda>y. [a y, b y]) ys)))
     = sum_list (map (\<lambda>y. f (a y) + f (b y :: 'b) :: real) ys)"
  by (induction ys) simp_all

lemma length_concat_pairs: "length (concat (map (\<lambda>y. [a y, b y]) ys)) = 2 * length ys"
  by (induction ys) simp_all

lemma sum_list_double: "sum_list (map (\<lambda>y. f y + f y :: real) ys) = 2 * sum_list (map f ys)"
  by (induction ys) simp_all

lemma agg_avg_pairs:
  assumes "\<And>y. f (a y) = sg y" and "\<And>y. f (b y) = sg y"
  shows "agg_avg f (a x, b x # concat (map (\<lambda>y. [a y, b y]) rest))
           = agg_avg f (a x, map a rest)"
proof -
  define S where "S = sg x + sum_list (map sg rest)"
  define N where "N = real (Suc (length rest))"
  have s2: "sum_list (map f (a x # b x # concat (map (\<lambda>y. [a y, b y]) rest))) = 2 * S"
    by (simp add: sum_list_concat_pairs assms sum_list_const_mult S_def)
  have l2: "real (length (a x # b x # concat (map (\<lambda>y. [a y, b y]) rest))) = 2 * N"
    by (simp add: length_concat_pairs N_def)
  have s1: "sum_list (map f (a x # map a rest)) = S"
    by (simp add: assms comp_def S_def)
  have l1: "real (length (a x # map a rest)) = N"
    by (simp add: N_def)
  have "(2 * S) / (2 * N) = S / N" by simp
  then show ?thesis
    unfolding agg_avg_def group_rows_def fst_conv snd_conv s2 l2 s1 l1 .
qed

lemma upto_1_2: "[1..2::int] = [1, 2]"
  by (simp add: upto_rec1)

lemma upto_1_1: "[1..1::int] = [1]"
  by simp

lemma cluster_ranking_avg:
  "cluster_ranking (map (cluster_select ''avg'')
       (order_by_desc (best_similarity ''avg'') ags))
     = map (\<lambda>t. (fst t, fst (snd t), fst (snd (snd t)), snd (snd (snd t)), snd (snd (snd t))))
         (sort_key (\<lambda>t. - snd (snd (snd t)))
           (map (\<lambda>a. (ag_id a, ag_content a, ag_metadata a, ag_avg_sim a)) ags))"
proof -
  have k: "(\<lambda>a. - best_similarity ''avg'' a)
             = (\<lambda>a. - snd (snd (snd (ag_id a, ag_content a, ag_metadata a, ag_avg_sim a))))"
    by (simp add: best_similarity_def)
  have "sort_key (\<lambda>t. - snd (snd (snd t)))
           (map (\<lambda>a. (ag_id a, ag_content a, ag_metadata a, ag_avg_sim a)) ags)
        = map (\<lambda>a. (ag_id a, ag_content a, ag_metadata a, ag_avg_sim a))
            (sort_key (\<lambda>a. - best_similarity ''avg'' a) ags)"
    unfolding k
    by (rule map_sort_key [of "\<lambda>a. (ag_id a, ag_content a, ag_metadata a, ag_avg_sim a)"
          "\<lambda>t. - snd (snd (snd t))" ags, symmetric])
  then show ?thesis
    by (simp add: cluster_ranking_def cluster_select_def order_by_desc_def best_similarity_def
        comp_def)
qed

lemma aggregated_duplicate_query:
  "map (\<lambda>a. (ag_id a, ag_content a, ag_metadata a, ag_avg_sim a)) (aggregated cd [v, v] embeddings)
     = map (\<lambda>a. (ag_id a, ag_content a, ag_metadata a, ag_avg_sim a)) (aggregated cd [v] embeddings)"
proof -
  define row where "row = (\<lambda>i (ev :: embedding_row \<times> vec).
         \<lparr> qs_id = e_id (fst ev), qs_content = e_content (fst ev),
           qs_metadata = e_metadata (fst ev), qs_query_idx = i,
           qs_similarity = 1 - cd (snd ev) v \<rparr>)"
  define kap where "kap = (\<lambda>ev :: embedding_row \<times> vec.
         (e_id (fst ev), e_content (fst ev), e_metadata (fst ev)))"
  define sg where "sg = (\<lambda>ev :: embedding_row \<times> vec. 1 - cd (snd ev) v)"
  define key where "key = (\<lambda>r :: query_similarity_row. (qs_id r, qs_content r, qs_metadata r))"
  define surv where "surv = filter (\<lambda>ev. sg ev > 0.5) (not_null_embedding embeddings)"
  have key_row: "key (row i ev) = kap ev" for i ev by (simp add: key_def row_def kap_def)
  have sim_row: "qs_similarity (row i ev) = sg ev" for i ev by (simp add: row_def sg_def)
  have q2: "query_similarities cd [v, v] embeddings
              = concat (map (\<lambda>ev. [row 1 ev, row 2 ev]) (not_null_embedding embeddings))"
    by (simp add: query_similarities_def unnest_with_ordinality_def upto_1_2 row_def)
  have q1: "query_similarities cd [v] embeddings = map (row 1) (not_null_embedding embeddings)"
    by (simp add: query_similarities_def unnest_with_ordinality_def row_def)
  have f2: "filter (\<lambda>r. qs_similarity r > 0.5) (query_similarities cd [v, v] embeddings)
              = concat (map (\<lambda>ev. [row 1 ev, row 2 ev]) surv)"
    unfolding q2 surv_def
    by (rule filter_concat_pairs [of qs_similarity "row 1" sg "row 2" "\<lambda>s. s > 0.5"])
       (simp_all add: sim_row)
  have f1: "filter (\<lambda>r. qs_similarity r > 0.5) (query_similarities cd [v] embeddings)
              = map (row 1) surv"
    unfolding q1 surv_def by (simp add: filter_map comp_def sim_row)
  have g2: "group_by key (concat (map (\<lambda>ev. [row 1 ev, row 2 ev]) surv))
      = map (\<lambda>g. (fst g, row 1 (fst (snd g)),
                    row 2 (fst (snd g)) # concat (map (\<lambda>y. [row 1 y, row 2 y]) (snd (snd g)))))
          (group_by kap surv)"
    by (rule group_by_pairs) (simp_all add: key_row)
  have g1: "group_by key (map (row 1) surv)
      = map (\<lambda>g. (fst g, row 1 (fst (snd g)), map (row 1) (snd (snd g)))) (group_by kap surv)"
    by (rule group_by_map) (simp add: key_row)
  have avg: "agg_avg qs_similarity (row 1 x, row 2 x # concat (map (\<lambda>y. [row 1 y, row 2 y]) rest))
           = agg_avg qs_similarity (row 1 x, map (row 1) rest)" for x rest
    by (rule agg_avg_pairs [of qs_similarity "row 1" sg "row 2"]) (simp_all add: sim_row)
  show ?thesis
    unfolding aggregated_def f1 f2 key_def [symmetric] g1 g2
    by (simp add: comp_def avg)
qed

lemma fold_max_ge: "(a::real) \<le> fold max xs a"
proof (induction xs arbitrary: a)
  case Nil
  then show ?case by simp
next
  case (Cons x xs)
  have "a \<le> max x a" by simp
  also have "\<dots> \<le> fold max xs (max x a)" by (rule Cons.IH)
  finally show ?case by simp
qed

lemma fold_min_gt: "c < (a::real) \<Longrightarrow> \<forall>x\<in>set xs. c < x \<Longrightarrow> c < fold min xs a"
  by (induction xs arbitrary: a) simp_all

lemma sum_list_gt:
  "\<forall>x\<in>set xs. c < (x::real) \<Longrightarrow> xs \<noteq> [] \<Longrightarrow> c * real (length xs) < sum_list xs"
proof (induction xs)
  case Nil
  then show ?case by simp
next
  case (Cons x xs)
  show ?case
  proof (cases "xs = []")
    case True
    with Cons.prems show ?thesis by simp
  next
    case False
    with Cons have "c * real (length xs) < sum_list xs" by simp
    moreover from Cons.prems have "c < x" by simp
    ultimately show ?thesis by (simp add: algebra_simps)
  qed
qed

lemma agg_above:
  assumes "\<forall>y\<in>set (group_rows g). c < f y"
  shows "c < agg_avg f g" and "c < agg_max f g" and "c < agg_min f g"
proof -
  have ne: "map f (group_rows g) \<noteq> []" by (simp add: group_rows_def)
  from assms have "\<forall>x\<in>set (map f (group_rows g)). c < x" by simp
  from sum_list_gt [OF this ne]
  have "c * real (length (group_rows g)) < sum_list (map f (group_rows g))" by simp
  moreover have "0 < real (length (group_rows g))" by (simp add: group_rows_def)
  ultimately show "c < agg_avg f g"
    by (simp add: agg_avg_def pos_less_divide_eq)
  from assms have first: "c < f (fst g)" by (simp add: group_rows_def)
  also have "f (fst g) \<le> agg_max f g" unfolding agg_max_def by (rule fold_max_ge)
  finally show "c < agg_max f g" .
  from assms have "\<forall>x\<in>set (map f (snd g)). c < x" by (simp add: group_rows_def)
  with first show "c < agg_min f g" unfolding agg_min_def by (rule fold_min_gt)
qed

lemma query_similarities_source:
  assumes "x \<in> set (query_similarities cd query_embeddings embeddings)"
  shows "\<exists>ev\<in>set (not_null_embedding embeddings). \<exists>q\<in>set query_embeddings.
           qs_id x = e_id (fst ev) \<and> qs_content x = e_content (fst ev)
         \<and> qs_metadata x = e_metadata (fst ev) \<and> qs_similarity x = 1 - cd (snd ev) q"
proof -
  from assms obtain ev qi where ev: "ev \<in> set (not_null_embedding embeddings)"
    and qi: "qi \<in> set (unnest_with_ordinality query_embeddings)"
    and x: "x = \<lparr> qs_id = e_id (fst ev), qs_content = e_content (fst ev),
           qs_metadata = e_metadata (fst ev), qs_query_idx = snd qi,
           qs_similarity = 1 - cd (snd ev) (fst qi) \<rparr>"
    by (auto simp: query_similarities_def)
  from qi have "(fst qi, snd qi) \<in> set (zip query_embeddings [1..int (length query_embeddings)])"
    by (simp add: unnest_with_ordinality_def)
  then have "fst qi \<in> set query_embeddings" by (rule set_zip_leftD)
  with ev x show ?thesis by auto
qed

lemma aggregated_row_sound:
  assumes "a \<in> set (aggregated cd query_embeddings embeddings)"
  shows "(\<exists>ev\<in>set (not_null_embedding embeddings). \<exists>q\<in>set query_embeddings.
            ag_id a = e_id (fst ev) \<and> ag_content a = e_content (fst ev)
          \<and> ag_metadata a = e_metadata (fst ev) \<and> 1 - cd (snd ev) q > 0.5)
       \<and> ag_avg_sim a > 0.5 \<and> ag_max_sim a > 0.5 \<and> ag_min_sim a > 0.5"
proof -
  let ?F = "filter (\<lambda>r. qs_similarity r > 0.5) (query_similarities cd query_embeddings embeddings)"
  let ?key = "\<lambda>r. (qs_id r, qs_content r, qs_metadata r)"
  from assms obtain k x rest where g: "(k, x, rest) \<in> set (group_by ?key ?F)"
    and a: "a = \<lparr> ag_id = fst k, ag_content = fst (snd k), ag_metadata = snd (snd k),
                  ag_max_sim = agg_max qs_similarity (x, rest),
                  ag_avg_sim = agg_avg qs_similarity (x, rest),
                  ag_min_sim = agg_min qs_similarity (x, rest),
                  ag_match_count = agg_count_distinct qs_query_idx (x, rest) \<rparr>"
    by (auto simp: aggregated_def)
  from group_by_members [OF g]
  have x: "x \<in> set ?F" and rest: "set rest \<subseteq> set ?F" and k: "?key x = k" by simp_all
  from x have xq: "x \<in> set (query_similarities cd query_embeddings embeddings)"
    and xs: "qs_similarity x > 0.5" by simp_all
  from query_similarities_source [OF xq] obtain ev q where
    ev: "ev \<in> set (not_null_embedding embeddings)" "q \<in> set query_embeddings"
      "qs_id x = e_id (fst ev)" "qs_content x = e_content (fst ev)"
      "qs_metadata x = e_metadata (fst ev)" "qs_similarity x = 1 - cd (snd ev) q" by blast
  from k a ev(3-5) have "ag_id a = e_id (fst ev)" "ag_content a = e_content (fst ev)"
      "ag_metadata a = e_metadata (fst ev)" by auto
  moreover from xs ev(6) have "1 - cd (snd ev) q > 0.5" by simp
  ultimately have src: "\<exists>ev\<in>set (not_null_embedding embeddings). \<exists>q\<in>set query_embeddings.
            ag_id a = e_id (fst ev) \<and> ag_content a = e_content (fst ev)
          \<and> ag_metadata a = e_metadata (fst ev) \<and> 1 - cd (snd ev) q > 0.5"
    using ev(1,2) by blast
  from x rest have "\<forall>y\<in>set (group_rows (x, rest)). 0.5 < qs_similarity y"
    by (auto simp: group_rows_def)
  from agg_above [OF this] a src show ?thesis by simp
qed

lemma cluster_search_rows:
  assumes "cluster_search cd query_embeddings limit_count aggregation_method embeddings = Inr rows"
    and "r \<in> set rows"
  shows "\<exists>a\<in>set (aggregated cd query_embeddings embeddings). r = cluster_select aggregation_method a"
proof -
  from assms(1) have "rows = take (nat limit_count) (map (cluster_select aggregation_method)
         (order_by_desc (best_similarity aggregation_method)
           (aggregated cd query_embeddings embeddings)))"
    by (simp add: cluster_search_def sql_limit_def split: if_splits)
  with assms(2) have "r \<in> set (map (cluster_select aggregation_method)
         (order_by_desc (best_similarity aggregation_method)
           (aggregated cd query_embeddings embeddings)))"
    by (metis in_set_takeD)
  then show ?thesis by (auto simp: order_by_desc_def)
qed

text \<open>
  Claim C9: for every table, query vector \<open>v\<close> and limit, \<^verbatim>\<open>cluster_search\<close> with the
  queries \<open>[v, v]\<close> and the method \<open>avg\<close> returns the same ranking (the same documents
  with the same best and average similarity, in the same order, or the same error) as
  with the single query \<open>[v]\<close>. For every list of queries and every method, each returned
  row belongs to a table row that has a vector and a query with similarity above 0.5 to
  it, so a document without such a pair is not returned, and the aggregates are taken
  over the pairs above 0.5 only: the average and the best similarity exceed 0.5.
\<close>

theorem cluster_search_duplicate_query:
  "map_sum id cluster_ranking (cluster_search cd [v, v] limit_count ''avg'' embeddings)
     = map_sum id cluster_ranking (cluster_search cd [v] limit_count ''avg'' embeddings)
   \<and> (\<forall>rows. cluster_search cd query_embeddings limit_count aggregation_method embeddings = Inr rows
        \<longrightarrow> (\<forall>r\<in>set rows.
               (\<exists>ev\<in>set (not_null_embedding embeddings). \<exists>q\<in>set query_embeddings.
                   cl_id r = e_id (fst ev) \<and> cl_content r = e_content (fst ev)
                 \<and> cl_metadata r = e_metadata (fst ev) \<and> 1 - cd (snd ev) q > 0.5)
             \<and> cl_avg_similarity r > 0.5 \<and> cl_best_similarity r > 0.5))"
proof -
  have rank: "map_sum id cluster_ranking (cluster_search cd [v, v] limit_count ''avg'' embeddings)
     = map_sum id cluster_ranking (cluster_search cd [v] limit_count ''avg'' embeddings)"
  proof (cases "limit_count < 0")
    case True
    then show ?thesis by (simp add: cluster_search_def sql_limit_def)
  next
    case False
    have "cluster_ranking (take n xs) = take n (cluster_ranking xs)" for n xs
      by (simp add: cluster_ranking_def take_map)
    with False show ?thesis
      by (simp add: cluster_search_def sql_limit_def cluster_ranking_avg aggregated_duplicate_query)
  qed
  have sound: "(\<exists>ev\<in>set (not_null_embedding embeddings). \<exists>q\<in>set query_embeddings.
                   cl_id r = e_id (fst ev) \<and> cl_content r = e_content (fst ev)
                 \<and> cl_metadata r = e_metadata (fst ev) \<and> 1 - cd (snd ev) q > 0.5)
             \<and> cl_avg_similarity r > 0.5 \<and> cl_best_similarity r > 0.5"
    if run: "cluster_search cd query_embeddings limit_count aggregation_method embeddings = Inr rows"
      and r: "r \<in> set rows" for rows r
  proof -
    from cluster_search_rows [OF run r] obtain a where
      a: "a \<in> set (aggregated cd query_embeddings embeddings)"
      and ra: "r = cluster_select aggregation_method a" by blast
    from aggregated_row_sound [OF a] ra show ?thesis
      by (simp add: cluster_select_def best_similarity_def)
  qed
  from rank sound show ?thesis by blast
qed


theorem cluster_search_duplicate_query_witness:
  "map_sum id cluster_ranking (cluster_search cosine_distance [unit_vec_1, unit_vec_1] 10 ''avg'' rag_table)
     = map_sum id cluster_ranking (cluster_search cosine_distance [unit_vec_1] 10 ''avg'' rag_table)
   \<and> (\<exists>rows. cluster_search cosine_distance [unit_vec_1] 10 ''avg'' rag_table = Inr rows
         \<and> map cl_id rows = [1, 4, 5]
         \<and> list_all (\<lambda>r. cl_avg_similarity r > 0.5 \<and> cl_best_similarity r > 0.5) rows)"
proof -
  have ids: "\<exists>rows. cluster_search cosine_distance [unit_vec_1] 10 ''avg'' rag_table = Inr rows
         \<and> map cl_id rows = [1, 4, 5]"
    by (simp add: cluster_search_def aggregated_def query_similarities_def
        unnest_with_ordinality_def cluster_select_def best_similarity_def
        agg_avg_def agg_max_def agg_min_def agg_count_distinct_def group_rows_def
        sql_eval rag_table_def table_eval)
  from cluster_search_duplicate_query
    [of cosine_distance unit_vec_1 10 rag_table "[unit_vec_1]" "''avg''"] ids
  show ?thesis by (auto simp: list_all_iff)
qed


section \<open>Semantic search: threshold, filters, order and truncation\<close>





section \<open>Parameters are not validated\<close>








section \<open>Multi-head aggregation: no check of the dimension\<close>

lemma all_ok_map:
  "\<forall>x\<in>set xs. f x = Inr (g x) \<Longrightarrow> all_ok (map f xs) = Inr (map g xs)"
  by (induction xs) simp_all

lemma concat_map_pairs:
  "concat (map (\<lambda>x. map (f x) hs) xs)
     = map (\<lambda>p. f (fst p) (snd p)) (concat (map (\<lambda>x. map (Pair x) hs) xs))"
  by (induction xs) (simp_all add: comp_def)

lemma slice_subvector_in_range:
  assumes "1 \<le> head_dim" and "1 \<le> h" and "h \<le> num_heads"
    and "num_heads * head_dim \<le> int (length v)"
  shows "slice_subvector v ((h - 1) * head_dim + 1) head_dim = Inr (head_slice head_dim v h)"
proof -
  from assms(1,3) have "h * head_dim \<le> num_heads * head_dim" by (simp add: mult_right_mono)
  with assms(4) have up: "(h - 1) * head_dim + head_dim \<le> int (length v)"
    by (simp add: algebra_simps)
  from assms(1,2) have low: "0 \<le> (h - 1) * head_dim" by simp
  define start where "start = (h - 1) * head_dim + 1"
  from up low assms(1) have s: "1 \<le> start" "start \<le> int (length v)"
    "start + head_dim \<le> int (length v) + 1"
    by (simp_all add: start_def)
  have e: "(if start > int (length v) - head_dim then int (length v) + 1 else start + head_dim)
             = start + head_dim"
    using s(3) by auto
  have "slice_subvector v start head_dim
          = Inr (take (nat head_dim) (drop (nat (start - 1)) v))"
    using s(1,2) assms(1) by (simp add: slice_subvector_def Let_def e)
  then show ?thesis by (simp add: start_def head_slice_def)
qed

lemma head_slice_prefix:
  assumes "1 \<le> head_dim" and "1 \<le> h" and "h \<le> num_heads"
  shows "head_slice head_dim (take (nat (num_heads * head_dim)) v) h = head_slice head_dim v h"
proof -
  from assms(1,3) have "h * head_dim \<le> num_heads * head_dim" by (simp add: mult_right_mono)
  then have "(h - 1) * head_dim + head_dim \<le> num_heads * head_dim"
    by (simp add: algebra_simps)
  moreover from assms(1,2) have "0 \<le> (h - 1) * head_dim" by simp
  ultimately have "nat head_dim \<le> nat (num_heads * head_dim) - nat ((h - 1) * head_dim)"
    using assms(1) by (simp add: nat_le_iff nat_diff_distrib' )
  then show ?thesis
    by (simp add: head_slice_def drop_take min_def)
qed

lemma head_score_in_range:
  assumes "1 \<le> head_dim" and "1 \<le> h" and "h \<le> num_heads"
    and "num_heads * head_dim \<le> int (length q)" and "length (snd ev) = length q"
  shows "head_score slice_subvector cd q head_dim ev h = Inr (head_row cd q head_dim ev h)"
proof -
  from assms(4,5) have "num_heads * head_dim \<le> int (length (snd ev))" by simp
  from slice_subvector_in_range [OF assms(1-3) this] slice_subvector_in_range [OF assms(1-4)]
  show ?thesis by (simp add: head_score_def head_row_def)
qed

lemma per_head_attention_in_range:
  assumes "1 \<le> head_dim" and "num_heads * head_dim \<le> int (length q)"
    and "\<forall>ev\<in>set (not_null_embedding embeddings). length (snd ev) = length q"
  shows "per_head_attention slice_subvector cd q num_heads head_dim embeddings
     = Inr (concat (map (\<lambda>ev. map (head_row cd q head_dim ev) (generate_series_from_1 num_heads))
                     (not_null_embedding embeddings)))"
proof -
  let ?all = "not_null_embedding embeddings"
  let ?hs = "generate_series_from_1 num_heads"
  let ?pairs = "concat (map (\<lambda>ev. map (Pair ev) ?hs) ?all)"
  have ok: "\<forall>p\<in>set ?pairs. head_score slice_subvector cd q head_dim (fst p) (snd p)
              = Inr (head_row cd q head_dim (fst p) (snd p))"
  proof
    fix p assume "p \<in> set ?pairs"
    then have ev: "fst p \<in> set ?all" and h: "snd p \<in> set ?hs" by auto
    from h have "1 \<le> snd p" "snd p \<le> num_heads" by (simp_all add: generate_series_from_1_def)
    moreover from ev assms(3) have "length (snd (fst p)) = length q" by simp
    ultimately show "head_score slice_subvector cd q head_dim (fst p) (snd p)
              = Inr (head_row cd q head_dim (fst p) (snd p))"
      using assms(1,2) by (intro head_score_in_range) simp_all
  qed
  have "per_head_attention slice_subvector cd q num_heads head_dim embeddings
      = all_ok (map (\<lambda>p. head_score slice_subvector cd q head_dim (fst p) (snd p)) ?pairs)"
    unfolding per_head_attention_def
    by (simp only: concat_map_pairs [of "head_score slice_subvector cd q head_dim"])
  also have "\<dots> = Inr (map (\<lambda>p. head_row cd q head_dim (fst p) (snd p)) ?pairs)"
    using ok by (rule all_ok_map)
  also have "map (\<lambda>p. head_row cd q head_dim (fst p) (snd p)) ?pairs
      = concat (map (\<lambda>ev. map (head_row cd q head_dim ev) ?hs) ?all)"
    by (simp only: concat_map_pairs [of "head_row cd q head_dim"])
  finally show ?thesis .
qed

lemma group_by_blocks:
  assumes key: "\<And>x h. key (f x h) = kap x" and d: "distinct (map kap xs)"
  shows "group_by key (concat (map (\<lambda>x. f x h0 # map (f x) hs) xs))
           = map (\<lambda>x. (kap x, f x h0, map (f x) hs)) xs"
  using d
proof (induction xs)
  case Nil
  then show ?case by simp
next
  case (Cons x xs)
  let ?rest = "concat (map (\<lambda>x. f x h0 # map (f x) hs) xs)"
  from Cons.prems have nx: "kap x \<notin> kap ` set xs" and dx: "distinct (map kap xs)" by simp_all
  have rest_keys: "\<forall>y\<in>set ?rest. key y \<noteq> kap x"
    using nx by (auto simp: key image_iff)
  have own: "\<forall>y\<in>set (map (f x) hs). key y = kap x" by (simp add: key)
  have f1: "filter (\<lambda>y. key y = kap x) (map (f x) hs @ ?rest) = map (f x) hs"
    using rest_keys own by (simp add: filter_id_conv filter_empty_conv)
  have f2: "filter (\<lambda>y. key y \<noteq> kap x) (map (f x) hs @ ?rest) = ?rest"
    using rest_keys own by (simp add: filter_id_conv filter_empty_conv)
  have "group_by key (f x h0 # (map (f x) hs @ ?rest))
          = (key (f x h0), f x h0, filter (\<lambda>y. key y = key (f x h0)) (map (f x) hs @ ?rest))
            # group_by key (filter (\<lambda>y. key y \<noteq> key (f x h0)) (map (f x) hs @ ?rest))"
    by (rule group_by.simps(2))
  then have step: "group_by key (f x h0 # (map (f x) hs @ ?rest))
          = (kap x, f x h0, map (f x) hs) # group_by key ?rest"
    by (simp only: key f1 f2)
  show ?case using step Cons.IH [OF dx] by (simp del: group_by.simps)
qed

lemma distinct_map_key:
  assumes "distinct (map (\<lambda>x. fst (kap x)) xs)"
  shows "distinct (map kap xs)"
proof -
  have "map (\<lambda>x. fst (kap x)) xs = map fst (map kap xs)" by simp
  with assms show ?thesis by (metis distinct_map)
qed


lemma multihead_aggregated_rows:
  assumes "1 \<le> num_heads" and "distinct (map e_id embeddings)"
  shows "multihead_aggregated
           (concat (map (\<lambda>ev. map (head_row cd q head_dim ev) (generate_series_from_1 num_heads))
                     (not_null_embedding embeddings)))
     = map (\<lambda>ev. \<lparr> mh_id = e_id (fst ev), mh_content = e_content (fst ev),
                   mh_aggregated_attention =
                     sum_list (head_scores cd q num_heads head_dim ev)
                     / real (length (head_scores cd q num_heads head_dim ev)),
                   mh_head_attentions = head_scores cd q num_heads head_dim ev,
                   mh_metadata = e_metadata (fst ev) \<rparr>)
         (not_null_embedding embeddings)"
proof -
  let ?all = "not_null_embedding embeddings"
  define kap where "kap = (\<lambda>ev :: embedding_row \<times> vec.
      (e_id (fst ev), e_content (fst ev), e_metadata (fst ev)))"
  define key where "key = (\<lambda>r :: per_head_row. (pha_id r, pha_content r, pha_metadata r))"
  let ?f = "head_row cd q head_dim"
  from assms(1) have series: "generate_series_from_1 num_heads = 1 # [2..num_heads]"
    by (simp add: generate_series_from_1_def upto_rec1)
  have "distinct (map (\<lambda>ev. fst (kap ev)) ?all)"
    using distinct_not_null_embedding [OF assms(2)] by (simp add: kap_def)
  then have d: "distinct (map kap ?all)" by (rule distinct_map_key)
  have g: "group_by key (concat (map (\<lambda>ev. ?f ev 1 # map (?f ev) [2..num_heads]) ?all))
      = map (\<lambda>ev. (kap ev, ?f ev 1, map (?f ev) [2..num_heads])) ?all"
    by (rule group_by_blocks) (simp_all add: key_def kap_def head_row_def d [unfolded kap_def])
  have rows: "group_rows (?f ev 1, map (?f ev) [2..num_heads])
      = map (?f ev) (generate_series_from_1 num_heads)" for ev
    by (simp add: group_rows_def series)
  have "sorted (map pha_head_idx (map (?f ev) (generate_series_from_1 num_heads)))" for ev
    by (simp add: comp_def head_row_def generate_series_from_1_def)
  then have ord: "order_by pha_head_idx (map (?f ev) (generate_series_from_1 num_heads))
      = map (?f ev) (generate_series_from_1 num_heads)" for ev
    unfolding order_by_def by (rule sort_key_id_if_sorted)
  have sc: "map pha_head_score (map (?f ev) (generate_series_from_1 num_heads))
      = head_scores cd q num_heads head_dim ev" for ev
    by (simp add: head_scores_def head_row_def comp_def)
  have avg: "agg_avg pha_head_score (?f ev 1, map (?f ev) [2..num_heads])
      = sum_list (head_scores cd q num_heads head_dim ev)
        / real (length (head_scores cd q num_heads head_dim ev))" for ev
    unfolding agg_avg_def rows sc [symmetric] by simp
  have heads: "map pha_head_score (order_by pha_head_idx
        (group_rows (?f ev 1, map (?f ev) [2..num_heads])))
      = head_scores cd q num_heads head_dim ev" for ev
    unfolding rows ord sc ..
  have blocks: "concat (map (\<lambda>ev. map (?f ev) (generate_series_from_1 num_heads)) ?all)
      = concat (map (\<lambda>ev. ?f ev 1 # map (?f ev) [2..num_heads]) ?all)"
    by (simp add: series)
  have "multihead_aggregated
          (concat (map (\<lambda>ev. map (?f ev) (generate_series_from_1 num_heads)) ?all))
      = map (\<lambda>kg. \<lparr> mh_id = fst (fst kg), mh_content = fst (snd (fst kg)),
                     mh_aggregated_attention = agg_avg pha_head_score (snd kg),
                     mh_head_attentions =
                       map pha_head_score (order_by pha_head_idx (group_rows (snd kg))),
                     mh_metadata = snd (snd (fst kg)) \<rparr>)
          (map (\<lambda>ev. (kap ev, ?f ev 1, map (?f ev) [2..num_heads])) ?all)"
    unfolding multihead_aggregated_def key_def [symmetric] blocks g ..
  also have "\<dots> = map (\<lambda>ev. \<lparr> mh_id = e_id (fst ev), mh_content = e_content (fst ev),
                   mh_aggregated_attention =
                     sum_list (head_scores cd q num_heads head_dim ev)
                     / real (length (head_scores cd q num_heads head_dim ev)),
                   mh_head_attentions = head_scores cd q num_heads head_dim ev,
                   mh_metadata = e_metadata (fst ev) \<rparr>) ?all"
    unfolding map_map comp_def snd_conv fst_conv avg heads by (simp add: kap_def)
  finally show ?thesis .
qed

lemma multihead_exact:
  assumes "0 \<le> limit_count" and "1 \<le> head_dim" and "1 \<le> num_heads"
    and "num_heads * head_dim \<le> int (length q)"
    and "\<forall>ev\<in>set (not_null_embedding embeddings). length (snd ev) = length q"
    and "distinct (map e_id embeddings)"
  shows "multihead_attention_aggregate slice_subvector cd q num_heads head_dim limit_count
           embeddings
     = Inr (take (nat limit_count) (order_by_desc mh_aggregated_attention
         (map (\<lambda>ev. \<lparr> mh_id = e_id (fst ev), mh_content = e_content (fst ev),
                   mh_aggregated_attention =
                     sum_list (head_scores cd q num_heads head_dim ev)
                     / real (length (head_scores cd q num_heads head_dim ev)),
                   mh_head_attentions = head_scores cd q num_heads head_dim ev,
                   mh_metadata = e_metadata (fst ev) \<rparr>)
           (not_null_embedding embeddings))))"
proof (cases "limit_count = 0")
  case True
  then show ?thesis by (simp add: multihead_attention_aggregate_def)
next
  case False
  with assms(1) have "0 < limit_count" by simp
  then show ?thesis
    unfolding multihead_attention_aggregate_def
      per_head_attention_in_range [OF assms(2,4,5)]
    by (simp add: sql_limit_def multihead_aggregated_rows [OF assms(3,6)])
qed

lemma head_scores_prefix:
  assumes "1 \<le> head_dim"
  shows "head_scores cd (take (nat (num_heads * head_dim)) q) num_heads head_dim
           (fst ev, take (nat (num_heads * head_dim)) (snd ev))
       = head_scores cd q num_heads head_dim ev"
  unfolding head_scores_def
  by (rule map_cong [OF refl])
     (simp add: generate_series_from_1_def head_slice_prefix [OF assms])

text \<open>
  Claim C4, as the specification states it, fails: on vectors of dimension 384,
  \<^verbatim>\<open>multihead_attention_aggregate\<close> with one head of dimension 1 (a product of 1, not
  384) returns a scored row for every document and no error.
\<close>

theorem multihead_mismatch_counterexample:
  "(1::int) * 1 \<noteq> int (length ones_vec)
   \<and> (\<exists>rows. multihead_attention_aggregate slice_subvector cosine_distance ones_vec 1 1 10 mh_table
               = Inr rows
         \<and> length rows = 2 \<and> set (map mh_id rows) = {1, 2}
         \<and> map mh_head_attentions rows = [[1], [1]])"
  by (simp add: multihead_attention_aggregate_def per_head_attention_def head_score_def
      generate_series_from_1_def multihead_aggregated_def
      agg_avg_def group_rows_def sql_eval mh_table_def table_eval insert_commute)

text \<open>
  Claim C4, amended: \<^verbatim>\<open>multihead_attention_aggregate\<close> does not compare
  \<open>num_heads * head_dim\<close> with the dimension of the vectors, and raises no error of its
  own. With \<^verbatim>\<open>subvector\<close> taking slices, a limit that is not negative, distinct ids and
  vectors of one dimension, whenever \<open>head_dim\<close> and \<open>num_heads\<close> are at least 1 and
  \<open>num_heads * head_dim\<close> is at most the dimension (equal to it or not), the function
  returns \<open>min limit n\<close> rows for a table of \<open>n\<close> rows with an embedding. Every returned
  row is a row of the table with, for each head \<open>h\<close> from 1 to \<open>num_heads\<close>, one minus
  the cosine distance between the components \<open>(h - 1) * head_dim + 1\<close> to \<open>h * head_dim\<close>
  of the document and of the query, and with the mean of these scores; the rows come
  with the mean not increasing, and their means are the \<open>limit\<close> largest of the table.
  The scores read the first \<open>num_heads * head_dim\<close> components only: cutting the query
  and the document after them changes no score.
\<close>

theorem multihead_no_dimension_check:
  assumes "0 \<le> limit_count" and "1 \<le> head_dim" and "1 \<le> num_heads"
    and "num_heads * head_dim \<le> int (length q)"
    and "\<forall>ev\<in>set (not_null_embedding embeddings). length (snd ev) = length q"
    and "distinct (map e_id embeddings)"
  shows "\<exists>rows. multihead_attention_aggregate slice_subvector cd q num_heads head_dim
                   limit_count embeddings = Inr rows
     \<and> length rows = min (nat limit_count) (length (not_null_embedding embeddings))
     \<and> (\<forall>r\<in>set rows. \<exists>ev\<in>set (not_null_embedding embeddings).
            mh_id r = e_id (fst ev) \<and> mh_content r = e_content (fst ev)
          \<and> mh_metadata r = e_metadata (fst ev)
          \<and> mh_head_attentions r = head_scores cd q num_heads head_dim ev
          \<and> length (mh_head_attentions r) = nat num_heads
          \<and> mh_aggregated_attention r
              = sum_list (head_scores cd q num_heads head_dim ev) / real_of_int num_heads)
     \<and> sorted_wrt (\<ge>) (map mh_aggregated_attention rows)
     \<and> map (\<lambda>r. - mh_aggregated_attention r) rows
         = take (nat limit_count)
             (sort (map (\<lambda>ev. - (sum_list (head_scores cd q num_heads head_dim ev)
                                  / real_of_int num_heads))
                      (not_null_embedding embeddings)))
     \<and> (\<forall>ev. head_scores cd (take (nat (num_heads * head_dim)) q) num_heads head_dim
                 (fst ev, take (nat (num_heads * head_dim)) (snd ev))
             = head_scores cd q num_heads head_dim ev)"
proof -
  let ?all = "not_null_embedding embeddings"
  define M where "M = (\<lambda>ev :: embedding_row \<times> vec.
      \<lparr> mh_id = e_id (fst ev), mh_content = e_content (fst ev),
        mh_aggregated_attention =
          sum_list (head_scores cd q num_heads head_dim ev)
          / real (length (head_scores cd q num_heads head_dim ev)),
        mh_head_attentions = head_scores cd q num_heads head_dim ev,
        mh_metadata = e_metadata (fst ev) \<rparr>)"
  define rows where
    "rows = take (nat limit_count) (order_by_desc mh_aggregated_attention (map M ?all))"
  have len: "length (head_scores cd q num_heads head_dim ev) = nat num_heads" for ev
    by (simp add: head_scores_def generate_series_from_1_def)
  from assms(3) have rn: "real (nat num_heads) = real_of_int num_heads" by simp
  have run: "multihead_attention_aggregate slice_subvector cd q num_heads head_dim
               limit_count embeddings = Inr rows"
    unfolding rows_def M_def by (rule multihead_exact [OF assms])
  have l: "length rows = min (nat limit_count) (length ?all)"
    by (simp add: rows_def order_by_desc_def min.commute)
  have "set rows \<subseteq> set (order_by_desc mh_aggregated_attention (map M ?all))"
    unfolding rows_def by (rule set_take_subset)
  then have sub: "set rows \<subseteq> M ` set ?all" by (simp add: order_by_desc_def)
  have each: "\<forall>r\<in>set rows. \<exists>ev\<in>set ?all.
            mh_id r = e_id (fst ev) \<and> mh_content r = e_content (fst ev)
          \<and> mh_metadata r = e_metadata (fst ev)
          \<and> mh_head_attentions r = head_scores cd q num_heads head_dim ev
          \<and> length (mh_head_attentions r) = nat num_heads
          \<and> mh_aggregated_attention r
              = sum_list (head_scores cd q num_heads head_dim ev) / real_of_int num_heads"
  proof
    fix r assume "r \<in> set rows"
    with sub obtain ev where ev: "ev \<in> set ?all" and r: "r = M ev" by auto
    from r have "mh_id r = e_id (fst ev) \<and> mh_content r = e_content (fst ev)
          \<and> mh_metadata r = e_metadata (fst ev)
          \<and> mh_head_attentions r = head_scores cd q num_heads head_dim ev
          \<and> length (mh_head_attentions r) = nat num_heads
          \<and> mh_aggregated_attention r
              = sum_list (head_scores cd q num_heads head_dim ev) / real_of_int num_heads"
      by (simp add: M_def len rn)
    with ev show "\<exists>ev\<in>set ?all.
            mh_id r = e_id (fst ev) \<and> mh_content r = e_content (fst ev)
          \<and> mh_metadata r = e_metadata (fst ev)
          \<and> mh_head_attentions r = head_scores cd q num_heads head_dim ev
          \<and> length (mh_head_attentions r) = nat num_heads
          \<and> mh_aggregated_attention r
              = sum_list (head_scores cd q num_heads head_dim ev) / real_of_int num_heads" ..
  qed
  have srt: "sorted_wrt (\<ge>) (map mh_aggregated_attention rows)"
    unfolding rows_def take_map [symmetric]
    by (rule sorted_wrt_take_list) (rule sorted_order_by_desc)
  have key: "(\<lambda>ev. - mh_aggregated_attention (M ev))
      = (\<lambda>ev. - (sum_list (head_scores cd q num_heads head_dim ev) / real_of_int num_heads))"
    by (simp add: M_def len rn)
  have "map (\<lambda>r. - mh_aggregated_attention r) (sort_key (\<lambda>r. - mh_aggregated_attention r)
            (map M ?all))
      = sort (map (\<lambda>r. - mh_aggregated_attention r) (map M ?all))"
    by (rule map_sort_key [of "\<lambda>r. - mh_aggregated_attention r" "\<lambda>x. x"])
  also have "map (\<lambda>r. - mh_aggregated_attention r) (map M ?all)
      = map (\<lambda>ev. - (sum_list (head_scores cd q num_heads head_dim ev)
                        / real_of_int num_heads)) ?all"
    unfolding map_map comp_def key ..
  finally have full: "map (\<lambda>r. - mh_aggregated_attention r)
          (sort_key (\<lambda>r. - mh_aggregated_attention r) (map M ?all))
      = sort (map (\<lambda>ev. - (sum_list (head_scores cd q num_heads head_dim ev)
                               / real_of_int num_heads)) ?all)" .
  have top: "map (\<lambda>r. - mh_aggregated_attention r) rows
         = take (nat limit_count)
             (sort (map (\<lambda>ev. - (sum_list (head_scores cd q num_heads head_dim ev)
                                  / real_of_int num_heads)) ?all))"
    unfolding rows_def order_by_desc_def take_map [symmetric] full ..
  have pre: "\<forall>ev. head_scores cd (take (nat (num_heads * head_dim)) q) num_heads head_dim
                 (fst ev, take (nat (num_heads * head_dim)) (snd ev))
             = head_scores cd q num_heads head_dim ev"
    by (intro allI head_scores_prefix [OF assms(2)])
  from run l each srt top pre show ?thesis by blast
qed

theorem multihead_no_dimension_check_witness:
  "(0::int) \<le> 10 \<and> (1::int) \<le> 1 \<and> (1::int) * 1 \<le> int (length ones_vec)
   \<and> list_all (\<lambda>ev. length (snd ev) = length ones_vec) (not_null_embedding mh_table)
   \<and> distinct (map e_id mh_table)
   \<and> (\<exists>rows. multihead_attention_aggregate slice_subvector cosine_distance ones_vec 1 1 10 mh_table
               = Inr rows \<and> length rows = 2
         \<and> sorted_wrt (\<ge>) (map mh_aggregated_attention rows))"
proof -
  have h1: "(0::int) \<le> 10" and h2: "(1::int) \<le> 1"
    and h3: "(1::int) * 1 \<le> int (length ones_vec)" by simp_all
  have h4: "\<forall>ev\<in>set (not_null_embedding mh_table). length (snd ev) = length ones_vec"
    by (simp add: mh_table_def table_eval)
  have h5: "distinct (map e_id mh_table)" by (simp add: mh_table_def)
  have n: "length (not_null_embedding mh_table) = 2" by (simp add: mh_table_def table_eval)
  from multihead_no_dimension_check [OF h1 h2 h2 h3 h4 h5, of cosine_distance]
  obtain rows where "multihead_attention_aggregate slice_subvector cosine_distance ones_vec 1 1 10
        mh_table = Inr rows"
    and "length rows = min (nat 10) (length (not_null_embedding mh_table))"
    and "sorted_wrt (\<ge>) (map mh_aggregated_attention rows)"
    by blast
  with n h4 h5 show ?thesis by (simp add: list_all_iff)
qed


section \<open>Flash attention on a single block\<close>

lemma numbered_embeddings_fst:
  "map fst (numbered_embeddings embeddings)
     = order_by (\<lambda>ev. e_created_at (fst ev)) (not_null_embedding embeddings)"
  by (simp add: numbered_embeddings_def Let_def)

lemma numbered_embeddings_snd:
  assumes "ne \<in> set (numbered_embeddings embeddings)"
  shows "1 \<le> snd ne \<and> snd ne \<le> int (length (not_null_embedding embeddings))"
proof -
  from assms have "(fst ne, snd ne) \<in> set (zip
      (order_by (\<lambda>ev. e_created_at (fst ev)) (not_null_embedding embeddings))
      [1..int (length (order_by (\<lambda>ev. e_created_at (fst ev)) (not_null_embedding embeddings)))])"
    by (simp add: numbered_embeddings_def Let_def)
  then have "snd ne \<in> set [1..int (length (order_by (\<lambda>ev. e_created_at (fst ev))
      (not_null_embedding embeddings)))]"
    by (rule set_zip_rightD)
  then show ?thesis by (simp add: order_by_def)
qed

lemma int_div_trunc_small: "0 \<le> a \<Longrightarrow> a < b \<Longrightarrow> int_div_trunc a b = 0"
  by (simp add: int_div_trunc_def)

lemma blocked_single_block:
  assumes "int (length (not_null_embedding embeddings)) \<le> block_size"
    and "b \<in> set (blocked block_size embeddings)"
  shows "bl_blk_id b = 1"
proof -
  from assms(2) obtain ne where ne: "ne \<in> set (numbered_embeddings embeddings)"
    and b: "bl_blk_id b = int_div_trunc (snd ne - 1) block_size + 1"
    by (auto simp: blocked_def)
  from numbered_embeddings_snd [OF ne] assms(1)
  have "0 \<le> snd ne - 1" "snd ne - 1 < block_size" by simp_all
  then have "int_div_trunc (snd ne - 1) block_size = 0" by (rule int_div_trunc_small)
  with b show ?thesis by simp
qed

lemma blocked_rows:
  "map bl_row (blocked block_size embeddings)
     = order_by (\<lambda>ev. e_created_at (fst ev)) (not_null_embedding embeddings)"
  by (simp add: blocked_def comp_def numbered_embeddings_fst [symmetric])

lemma group_by_single_key:
  assumes "\<forall>y\<in>set (x # rest). key y = k"
  shows "group_by key (x # rest) = [(k, x, rest)]"
proof -
  from assms have "key x = k" and r: "\<forall>y\<in>set rest. key y = key x" by simp_all
  from r have "filter (\<lambda>y. key y = key x) rest = rest" by (simp add: filter_id_conv)
  moreover from r have "filter (\<lambda>y. key y \<noteq> key x) rest = []" by (simp add: filter_empty_conv)
  ultimately show ?thesis using \<open>key x = k\<close> by simp
qed

lemma join_on_single:
  assumes "\<forall>a\<in>set as. ka a = kb b"
  shows "join_on ka kb as [b] = map (\<lambda>a. (a, b)) as"
  using assms by (induction as) (simp_all add: join_on_def)

lemma exp_shift_softmax:
  "exp (s - m) / sum_list (map (\<lambda>b. exp (f b - m)) bs)
     = exp s / sum_list (map (\<lambda>b. exp (f b :: real)) bs)"
proof -
  have "sum_list (map (\<lambda>b. exp (f b - m)) bs) = sum_list (map (\<lambda>b. exp (- m) * exp (f b)) bs)"
    by (simp add: exp_diff exp_minus divide_inverse mult.commute)
  also have "\<dots> = exp (- m) * sum_list (map (\<lambda>b. exp (f b)) bs)"
    by (simp add: sum_list_const_mult)
  finally have "sum_list (map (\<lambda>b. exp (f b - m)) bs)
      = exp (- m) * sum_list (map (\<lambda>b. exp (f b)) bs)" .
  moreover have "exp (s - m) = exp (- m) * exp s"
    by (simp add: exp_diff exp_minus divide_inverse mult.commute)
  ultimately show ?thesis by simp
qed

lemma final_attention_single_block:
  assumes "\<forall>b\<in>set bs. bl_blk_id b = 1"
  shows "final_attention (block_attention cd q bs)
     = map (\<lambda>b. \<lparr> fr_id = e_id (fst (bl_row b)), fr_content = e_content (fst (bl_row b)),
                  fr_attention_score =
                    Some (exp (flash_raw_score cd q b)
                          / sum_list (map (\<lambda>b. exp (flash_raw_score cd q b)) bs)),
                  fr_block_id = 1, fr_metadata = e_metadata (fst (bl_row b)) \<rparr>) bs"
proof (cases bs)
  case Nil
  then show ?thesis
    by (simp add: final_attention_def block_attention_def block_max_def block_sums_def join_on_def)
next
  case (Cons x rest)
  define M where "M = agg_max (flash_raw_score cd q) (x, rest)"
  define ba where "ba = map (\<lambda>b. (b, exp (flash_raw_score cd q b - M))) bs"
  define S where "S = sum_list (map (\<lambda>b. exp (flash_raw_score cd q b - M)) bs)"
  from assms Cons have "group_by bl_blk_id bs = [(1, x, rest)]"
    by (simp add: group_by_single_key)
  then have bm: "block_max cd q bs = [(1, M)]" by (simp add: block_max_def M_def)
  have "join_on bl_blk_id fst bs [(1, M)] = map (\<lambda>a. (a, (1, M))) bs"
    by (rule join_on_single) (simp add: assms)
  then have battn: "block_attention cd q bs = ba"
    by (simp add: block_attention_def bm ba_def comp_def)
  have ba_cons: "ba = (x, exp (flash_raw_score cd q x - M))
                      # map (\<lambda>b. (b, exp (flash_raw_score cd q b - M))) rest"
    by (simp add: ba_def Cons)
  have "\<forall>y\<in>set ba. bl_blk_id (fst y) = 1" using assms by (auto simp: ba_def)
  then have "group_by (\<lambda>x. bl_blk_id (fst x)) ba
      = [(1, (x, exp (flash_raw_score cd q x - M)),
             map (\<lambda>b. (b, exp (flash_raw_score cd q b - M))) rest)]"
    unfolding ba_cons by (rule group_by_single_key)
  then have bsum: "block_sums ba = [(1, S)]"
    by (simp add: block_sums_def agg_sum_def group_rows_def S_def Cons comp_def)
  have j: "join_on (\<lambda>x. bl_blk_id (fst x)) fst ba [(1, S)] = map (\<lambda>a. (a, (1, S))) ba"
    by (rule join_on_single) (simp add: ba_def assms)
  have fin: "final_attention ba
     = map (\<lambda>b. \<lparr> fr_id = e_id (fst (bl_row b)), fr_content = e_content (fst (bl_row b)),
                  fr_attention_score = div_nullif0 (exp (flash_raw_score cd q b - M)) (Some S),
                  fr_block_id = bl_blk_id b, fr_metadata = e_metadata (fst (bl_row b)) \<rparr>) bs"
    unfolding final_attention_def bsum j by (simp add: ba_def comp_def)
  from Cons have "0 < S" unfolding S_def by (intro sum_list_exp_pos) simp
  then have w: "div_nullif0 (exp (flash_raw_score cd q b - M)) (Some S)
        = Some (exp (flash_raw_score cd q b)
                / sum_list (map (\<lambda>b. exp (flash_raw_score cd q b)) bs))" for b
    by (simp add: div_nullif0_pos S_def exp_shift_softmax)
  show ?thesis
    unfolding battn fin
    by (rule map_cong) (simp_all add: w assms)
qed


lemma sum_list_sort_key: "sum_list (map f (sort_key k xs)) = sum_list (map (f :: 'a \<Rightarrow> real) xs)"
proof -
  have "mset (map f (sort_key k xs)) = mset (map f xs)" by simp
  then show ?thesis by (metis sum_mset_sum_list)
qed

lemma map_key_sort_key_perm:
  fixes f :: "'a \<Rightarrow> real"
  assumes "mset xs = mset ys"
  shows "map f (sort_key f xs) = map f (sort_key f ys)"
proof -
  have x: "map f (sort_key f xs) = sort (map f xs)"
    using map_sort_key [of f "\<lambda>x. x" xs] by simp
  have y: "map f (sort_key f ys) = sort (map f ys)"
    using map_sort_key [of f "\<lambda>x. x" ys] by simp
  from assms have "mset (map f xs) = mset (map f ys)" by (metis mset_map)
  then have "sort (map f xs) = sort (map f ys)"
    by (metis mset_sort properties_for_sort sorted_sort)
  with x y show ?thesis by simp
qed

lemma filter_eq_replicate: "filter (\<lambda>x. k = x) xs = replicate (count_list xs k) k"
  by (induction xs) auto

lemma sort_key_perm_inj:
  fixes f :: "'a \<Rightarrow> real"
  assumes "mset xs = mset ys" and "inj_on f (set ys)"
  shows "sort_key f xs = sort_key f ys"
proof (rule properties_for_sort_key)
  show "mset (sort_key f ys) = mset xs" using assms(1) by simp
  show "sorted (map f (sort_key f ys))" by simp
  fix k assume "k \<in> set (sort_key f ys)"
  then have k: "k \<in> set ys" by simp
  from assms(1) have sets: "set xs = set ys" by (metis set_mset_mset)
  have "filter (\<lambda>x. f k = f x) (sort_key f ys) = filter (\<lambda>x. f k = f x) ys"
    using sort_key_stable [of f "f k" ys] by (simp add: eq_commute)
  also have "\<dots> = filter (\<lambda>x. k = x) ys"
    using assms(2) k by (intro filter_cong) (auto dest: inj_onD)
  also have "\<dots> = replicate (count_list ys k) k" by (rule filter_eq_replicate)
  also have "count_list ys k = count_list xs k"
    using assms(1) by (metis count_mset)
  also have "replicate (count_list xs k) k = filter (\<lambda>x. k = x) xs"
    by (rule filter_eq_replicate [symmetric])
  also have "\<dots> = filter (\<lambda>x. f k = f x) xs"
    using assms(2) k sets by (intro filter_cong) (auto dest: inj_onD)
  finally show "filter (\<lambda>x. f k = f x) (sort_key f ys) = filter (\<lambda>x. f k = f x) xs" .
qed


lemma flash_single_block_rows:
  assumes "int (length (not_null_embedding embeddings)) \<le> block_size"
  shows "final_attention (block_attention cd q (blocked block_size embeddings))
     = map (\<lambda>ev. \<lparr> fr_id = e_id (fst ev), fr_content = e_content (fst ev),
                  fr_attention_score =
                    Some (exp (1 - cd (snd ev) q)
                          / sum_list (map (\<lambda>ev. exp (1 - cd (snd ev) q))
                                       (not_null_embedding embeddings))),
                  fr_block_id = 1, fr_metadata = e_metadata (fst ev) \<rparr>)
         (order_by (\<lambda>ev. e_created_at (fst ev)) (not_null_embedding embeddings))"
proof -
  let ?bs = "blocked block_size embeddings"
  let ?g = "\<lambda>ev :: embedding_row \<times> vec. exp (1 - cd (snd ev) q)"
  have one: "\<forall>b\<in>set ?bs. bl_blk_id b = 1"
    using blocked_single_block [OF assms] by blast
  have "sum_list (map (\<lambda>b. exp (flash_raw_score cd q b)) ?bs)
          = sum_list (map ?g (map bl_row ?bs))"
    by (simp add: flash_raw_score_def comp_def)
  also have "\<dots> = sum_list (map ?g (not_null_embedding embeddings))"
    by (simp only: blocked_rows order_by_def sum_list_sort_key)
  finally have Z: "sum_list (map (\<lambda>b. exp (flash_raw_score cd q b)) ?bs)
          = sum_list (map ?g (not_null_embedding embeddings))" .
  have "final_attention (block_attention cd q ?bs)
     = map (\<lambda>ev. \<lparr> fr_id = e_id (fst ev), fr_content = e_content (fst ev),
                  fr_attention_score =
                    Some (?g ev / sum_list (map ?g (not_null_embedding embeddings))),
                  fr_block_id = 1, fr_metadata = e_metadata (fst ev) \<rparr>)
         (map bl_row ?bs)"
    unfolding final_attention_single_block [OF one] Z
    by (simp add: flash_raw_score_def comp_def)
  then show ?thesis by (simp only: blocked_rows)
qed

lemma attention_select_temperature_1:
  assumes "ev \<in> set rows"
  shows "attention_select cd q 1 (softmax_sum cd q 1 rows) ev
     = \<lparr> ar_id = e_id (fst ev), ar_content = e_content (fst ev),
         ar_raw_score = 1 - cd (snd ev) q,
         ar_attention_weight =
           Some (exp (1 - cd (snd ev) q) / sum_list (map (\<lambda>ev. exp (1 - cd (snd ev) q)) rows)),
         ar_metadata = e_metadata (fst ev) \<rparr>"
proof -
  from attention_weight_plain [OF assms, of cd q 1]
  have "ar_attention_weight (attention_select cd q 1 (softmax_sum cd q 1 rows) ev)
      = Some (exp (1 - cd (snd ev) q) / sum_list (map (\<lambda>ev. exp (1 - cd (snd ev) q)) rows))"
    by (simp add: attention_exponent_def)
  then show ?thesis by (simp add: attention_select_def)
qed
text \<open>
  Claim C6, as the specification states it, fails in its ranking: on a table of two
  documents at the same distance from the query, stored against the order of their
  creation, with a block size of 64 and a limit of 1, \<^verbatim>\<open>flash_attention_search\<close> returns
  document 2 and \<^verbatim>\<open>attention_scores\<close> at temperature 1 returns document 1. The weights are
  equal, and neither function orders equal weights: \<^verbatim>\<open>flash_attention_search\<close> receives
  the rows sorted by \<open>created_at\<close>, \<^verbatim>\<open>attention_scores\<close> in the order of the scan.
\<close>

theorem flash_ranking_tie_counterexample:
  "int (length (not_null_embedding reversed_tie_table)) \<le> 64
   \<and> (\<exists>frows arows.
         flash_attention_search cosine_distance unit_vec_1 64 1 reversed_tie_table = Inr frows
       \<and> attention_scores cosine_distance unit_vec_1 1 1 reversed_tie_table = Inr arows
       \<and> map fr_id frows = [2] \<and> map ar_id arows = [1]
       \<and> map fr_block_id frows = [1]
       \<and> map fr_attention_score frows = map ar_attention_weight arows
       \<and> flash_ranking frows \<noteq> attention_ranking arows)"
proof -
  have n: "int (length (not_null_embedding reversed_tie_table)) \<le> 64"
    by (simp add: reversed_tie_table_def table_eval)
  have nz: "numbered_embeddings reversed_tie_table \<noteq> []"
    by (simp add: numbered_embeddings_def reversed_tie_table_def table_eval sql_eval)
  have f: "flash_attention_search cosine_distance unit_vec_1 64 1 reversed_tie_table
      = Inr [\<lparr> fr_id = 2, fr_content = ''b'', fr_attention_score = Some (1 / 2), fr_block_id = 1,
               fr_metadata = [] \<rparr>]"
    unfolding flash_attention_search_def flash_single_block_rows [OF n]
    by (simp add: nz reversed_tie_table_def table_eval sql_eval coalesce0_def)
       (rule exI [of _ "1 / 2"], simp)
  have a: "attention_scores cosine_distance unit_vec_1 1 1 reversed_tie_table
      = Inr [\<lparr> ar_id = 1, ar_content = ''a'', ar_raw_score = 1, ar_attention_weight = Some (1 / 2),
               ar_metadata = [] \<rparr>]"
    by (simp add: attention_scores_def softmax_sum_def attention_select_def
        attention_exponent_def sql_sum_def div_nullif0_def nullif0_def
        reversed_tie_table_def table_eval sql_eval coalesce0_def Let_def)
       (rule exI [of _ "1 / 2"], simp)
  from n have "flash_attention_search cosine_distance unit_vec_1 64 1 reversed_tie_table
        = Inr [\<lparr> fr_id = 2, fr_content = ''b'', fr_attention_score = Some (1 / 2),
                 fr_block_id = 1, fr_metadata = [] \<rparr>]
      \<longrightarrow> attention_scores cosine_distance unit_vec_1 1 1 reversed_tie_table
        = Inr [\<lparr> ar_id = 1, ar_content = ''a'', ar_raw_score = 1,
                 ar_attention_weight = Some (1 / 2), ar_metadata = [] \<rparr>]
      \<longrightarrow> ?thesis"
    by (simp add: flash_ranking_def attention_ranking_def)
  with f a show ?thesis by blast
qed

text \<open>
  Claim C6, amended: when the rows that have a vector are at most \<open>block_size\<close> and the
  limit is not negative, \<^verbatim>\<open>flash_attention_search\<close> and \<^verbatim>\<open>attention_scores\<close> at
  temperature 1 both return without error; every row of the flash result lies in block 1
  and carries the weight \<^verbatim>\<open>attention_scores\<close> gives its document; the two results list
  the same weights in the same order. They list the same documents in the same order when
  no two documents are at the same distance from the query; between documents at the same
  distance neither function fixes an order, and the two results may name different
  documents.
\<close>

theorem flash_single_block_matches_attention_scores:
  assumes "int (length (not_null_embedding embeddings)) \<le> block_size" and "0 \<le> limit_count"
  shows "\<exists>frows arows.
       flash_attention_search cd q block_size limit_count embeddings = Inr frows
     \<and> attention_scores cd q limit_count 1 embeddings = Inr arows
     \<and> length frows = min (nat limit_count) (length (not_null_embedding embeddings))
     \<and> (\<forall>r\<in>set frows. fr_block_id r = 1)
     \<and> (\<forall>r\<in>set frows. \<exists>ev\<in>set (not_null_embedding embeddings).
            fr_id r = e_id (fst ev)
          \<and> fr_attention_score r
              = ar_attention_weight (attention_select cd q 1
                  (softmax_sum cd q 1 (not_null_embedding embeddings)) ev))
     \<and> map fr_attention_score frows = map ar_attention_weight arows
     \<and> (inj_on (\<lambda>ev. cd (snd ev) q) (set (not_null_embedding embeddings))
          \<longrightarrow> flash_ranking frows = attention_ranking arows)"
proof -
  let ?all = "not_null_embedding embeddings"
  let ?rows = "order_by (\<lambda>ev. e_created_at (fst ev)) ?all"
  define Z where "Z = sum_list (map (\<lambda>ev. exp (1 - cd (snd ev) q)) ?all)"
  define W where "W = (\<lambda>ev :: embedding_row \<times> vec. exp (1 - cd (snd ev) q) / Z)"
  define F where "F = (\<lambda>ev :: embedding_row \<times> vec.
     \<lparr> fr_id = e_id (fst ev), fr_content = e_content (fst ev), fr_attention_score = Some (W ev),
       fr_block_id = 1, fr_metadata = e_metadata (fst ev) \<rparr>)"
  define A where "A = (\<lambda>ev :: embedding_row \<times> vec.
     \<lparr> ar_id = e_id (fst ev), ar_content = e_content (fst ev), ar_raw_score = 1 - cd (snd ev) q,
       ar_attention_weight = Some (W ev), ar_metadata = e_metadata (fst ev) \<rparr>)"
  define n where "n = nat limit_count"
  define k where "k = (\<lambda>ev. - W ev)"
  have perm: "mset ?rows = mset ?all" by (simp add: order_by_def)
  have fin: "final_attention (block_attention cd q (blocked block_size embeddings)) = map F ?rows"
    unfolding flash_single_block_rows [OF assms(1)] F_def W_def Z_def ..
  have not_zero: "\<not> (numbered_embeddings embeddings \<noteq> [] \<and> block_size = 0)"
  proof
    assume a: "numbered_embeddings embeddings \<noteq> [] \<and> block_size = 0"
    then have "map fst (numbered_embeddings embeddings) \<noteq> []" by simp
    then have "length ?rows \<noteq> 0" by (simp add: numbered_embeddings_fst)
    then have "?all \<noteq> []" by (simp add: order_by_def)
    with assms(1) a show False by simp
  qed
  have nn: "\<forall>r\<in>set (map F ?rows). fr_attention_score r \<noteq> None" by (simp add: F_def)
  have "order_by_desc (\<lambda>r. coalesce0 (fr_attention_score r)) (map F ?rows)
          = map F (sort_key k ?rows)"
    unfolding order_by_desc_def
    using map_sort_key [of F "\<lambda>r. - coalesce0 (fr_attention_score r)" ?rows]
    by (simp add: F_def coalesce0_def k_def)
  then have frun: "flash_attention_search cd q block_size limit_count embeddings
                = Inr (take n (map F (sort_key k ?rows)))"
    unfolding flash_attention_search_def if_not_P [OF not_zero] fin
    using assms(2)
    by (simp add: sql_limit_def n_def order_by_desc_nulls_first_no_null [OF nn])
  have sel: "map (attention_select cd q 1 (softmax_sum cd q 1 ?all)) ?all = map A ?all"
    by (rule map_cong) (simp_all add: attention_select_temperature_1 A_def W_def Z_def)
  have "order_by_desc (\<lambda>r. coalesce0 (ar_attention_weight r)) (map A ?all)
          = map A (sort_key k ?all)"
    unfolding order_by_desc_def
    using map_sort_key [of A "\<lambda>r. - coalesce0 (ar_attention_weight r)" ?all]
    by (simp add: A_def coalesce0_def k_def)
  then have arun: "attention_scores cd q limit_count 1 embeddings
                = Inr (take n (map A (sort_key k ?all)))"
    using assms(2) by (simp add: attention_scores_ok sel n_def)
  have blk: "\<forall>r\<in>set (take n (map F (sort_key k ?rows))). fr_block_id r = 1"
  proof
    fix r assume "r \<in> set (take n (map F (sort_key k ?rows)))"
    then have "r \<in> set (map F (sort_key k ?rows))" by (rule in_set_takeD)
    then show "fr_block_id r = 1" by (auto simp: F_def)
  qed
  have src: "\<forall>r\<in>set (take n (map F (sort_key k ?rows))). \<exists>ev\<in>set ?all.
            fr_id r = e_id (fst ev)
          \<and> fr_attention_score r
              = ar_attention_weight (attention_select cd q 1 (softmax_sum cd q 1 ?all) ev)"
  proof
    fix r assume "r \<in> set (take n (map F (sort_key k ?rows)))"
    then have "r \<in> set (map F (sort_key k ?rows))" by (rule in_set_takeD)
    then obtain ev where ev: "ev \<in> set ?all" and r: "r = F ev"
      by (auto simp: order_by_def)
    from ev have "attention_select cd q 1 (softmax_sum cd q 1 ?all) ev = A ev"
      by (simp add: attention_select_temperature_1 A_def W_def Z_def)
    with r have "fr_id r = e_id (fst ev) \<and> fr_attention_score r
              = ar_attention_weight (attention_select cd q 1 (softmax_sum cd q 1 ?all) ev)"
      by (simp add: F_def A_def)
    with ev show "\<exists>ev\<in>set ?all. fr_id r = e_id (fst ev)
          \<and> fr_attention_score r
              = ar_attention_weight (attention_select cd q 1 (softmax_sum cd q 1 ?all) ev)"
      by blast
  qed
  have mk: "map k (sort_key k ?rows) = map k (sort_key k ?all)"
    using perm by (rule map_key_sort_key_perm)
  have "map uminus (map k (sort_key k ?rows)) = map uminus (map k (sort_key k ?all))"
    by (simp only: mk)
  then have wk: "map W (sort_key k ?rows) = map W (sort_key k ?all)"
    by (simp add: k_def comp_def)
  have "map fr_attention_score (map F (sort_key k ?rows)) = map Some (map W (sort_key k ?rows))"
    by (simp add: F_def comp_def)
  moreover have "map ar_attention_weight (map A (sort_key k ?all))
      = map Some (map W (sort_key k ?all))"
    by (simp add: A_def comp_def)
  ultimately have wts: "map fr_attention_score (take n (map F (sort_key k ?rows)))
      = map ar_attention_weight (take n (map A (sort_key k ?all)))"
    using wk by (simp only: take_map [symmetric])
  have rank: "flash_ranking (take n (map F (sort_key k ?rows)))
                = attention_ranking (take n (map A (sort_key k ?all)))"
    if inj: "inj_on (\<lambda>ev. cd (snd ev) q) (set ?all)"
  proof -
    have same: "sort_key k ?rows = sort_key k ?all"
    proof (cases "?all = []")
      case True
      then show ?thesis by (simp add: order_by_def)
    next
      case False
      then have "0 < Z" unfolding Z_def by (rule sum_list_exp_pos)
      have "inj_on k (set ?all)"
      proof (rule inj_onI)
        fix x y assume x: "x \<in> set ?all" and y: "y \<in> set ?all" and "k x = k y"
        then have "exp (1 - cd (snd x) q) / Z = exp (1 - cd (snd y) q) / Z"
          by (simp add: k_def W_def)
        with \<open>0 < Z\<close> have "cd (snd x) q = cd (snd y) q" by simp
        with inj x y show "x = y" by (auto dest: inj_onD)
      qed
      with perm show ?thesis by (rule sort_key_perm_inj)
    qed
    show ?thesis
      by (simp add: flash_ranking_def attention_ranking_def same F_def A_def take_map comp_def)
  qed
  have len: "length (take n (map F (sort_key k ?rows)))
      = min (nat limit_count) (length ?all)"
    by (simp add: n_def order_by_def min.commute)
  from frun arun len blk src wts rank show ?thesis by blast
qed

theorem flash_single_block_matches_attention_scores_witness:
  "int (length (not_null_embedding apart_table)) \<le> 64 \<and> (0::int) \<le> 10
   \<and> inj_on (\<lambda>ev. cosine_distance (snd ev) unit_vec_1) (set (not_null_embedding apart_table))
   \<and> (\<exists>frows arows.
         flash_attention_search cosine_distance unit_vec_1 64 10 apart_table = Inr frows
       \<and> attention_scores cosine_distance unit_vec_1 10 1 apart_table = Inr arows
       \<and> length frows = 2
       \<and> list_all (\<lambda>r. fr_block_id r = 1) frows
       \<and> map fr_attention_score frows = map ar_attention_weight arows
       \<and> flash_ranking frows = attention_ranking arows)"
proof -
  have h1: "int (length (not_null_embedding apart_table)) \<le> 64"
    by (simp add: apart_table_def table_eval)
  have h2: "(0::int) \<le> 10" by simp
  have n: "length (not_null_embedding apart_table) = 2" by (simp add: apart_table_def table_eval)
  have inj: "inj_on (\<lambda>ev. cosine_distance (snd ev) unit_vec_1)
               (set (not_null_embedding apart_table))"
    by (simp add: apart_table_def table_eval)
  from flash_single_block_matches_attention_scores [OF h1 h2, of cosine_distance unit_vec_1]
    inj h1 n
  show ?thesis by (simp add: list_all_iff) blast
qed

end
